theory Spec2Isabelle
  imports Complex_Main
begin

section \<open>The CapturePhoto widget: data model\<close>

text \<open>
  A shallow embedding of \<^verbatim>\<open>src/components/feature/CapturePhoto/CapturePhoto.tsx\<close>.
  The React state cells, the refs, the module-level \<^verbatim>\<open>globalStream\<close> and the part of
  the browser the component talks to are fields of one record; every handler is a
  function from state to state. An \<^verbatim>\<open>async\<close> handler is cut at each \<^verbatim>\<open>await\<close>: the
  part before the await enqueues a task, and the part after it runs when the platform
  settles that task, so that other handlers can run in between, as they can in the
  browser.
\<close>

datatype PermissionState = Granted | Denied | Prompt

datatype FacingMode = User | Environment

datatype View = ErrorView | PreviewView | LiveView

text \<open>A \<^verbatim>\<open>MediaStream\<close> is identified by the order in which the platform handed it out.\<close>

type_synonym stream = nat

text \<open>
  The \<^verbatim>\<open>video\<close> element as far as the component touches it: the two listener slots
  (set means: holds \<^verbatim>\<open>informCameraReady\<close>) and \<^verbatim>\<open>srcObject\<close>.
\<close>

record video_el =
  onplaying :: bool
  oncanplay :: bool
  srcObject :: "stream option"

datatype draw_op = Scale int int | DrawImage int int int int

record canvas_el =
  width :: nat
  height :: nat
  ops :: "draw_op list"

record image_el =
  src :: string

text \<open>
  What the platform reports when the capture button is pressed: the intrinsic size of
  the video, whether \<^verbatim>\<open>getContext('2d')\<close> yields a context, and the encoder behind
  \<^verbatim>\<open>canvas.toDataURL(type, quality)\<close>.
\<close>

record snapshot =
  videoWidth :: nat
  videoHeight :: nat
  context2d :: bool
  toDataURL :: "canvas_el \<Rightarrow> string \<Rightarrow> real \<Rightarrow> string"

text \<open>
  A suspended \<^verbatim>\<open>async\<close> call. \<^verbatim>\<open>startCamera\<close> awaits \<^verbatim>\<open>getUserMedia\<close> and then
  \<^verbatim>\<open>play()\<close>; its caller is either \<^verbatim>\<open>requestCameraAccess\<close> or the \<^verbatim>\<open>try\<close> block of
  \<^verbatim>\<open>switchCamera\<close>, whose closure still holds the facing mode from before the toggle.
\<close>

datatype origin = RequestAccess | SwitchTry FacingMode

datatype task = GetUserMedia origin FacingMode | Play origin

record state =
  isOpen :: bool
  capturedImage :: "string option"
  error :: string
  permission :: PermissionState
  isLoading :: bool
  facingMode :: FacingMode
  isCameraReady :: bool
  videoRef :: "video_el option"
  canvasRef :: "canvas_el option"
  readyCalledRef :: bool
  imageRef :: "image_el option"
  globalStream :: "stream option"
  alive :: "stream set"
  nextStream :: stream
  mediaSupported :: bool
  pending :: "task list"
  mounted :: bool

definition fresh_video :: video_el where
  "fresh_video = \<lparr>onplaying = False, oncanplay = False, srcObject = None\<rparr>"

definition fresh_canvas :: canvas_el where
  "fresh_canvas = \<lparr>width = 300, height = 150, ops = []\<rparr>"

text \<open>
  The state right after mount (lines 37--47): the \<^verbatim>\<open>useState\<close> and \<^verbatim>\<open>useRef\<close> defaults.
  Whether the browser has \<^verbatim>\<open>navigator.mediaDevices.getUserMedia\<close> and what the caller's
  image ref points to are given from outside.
\<close>

definition initial_state :: "bool \<Rightarrow> image_el option \<Rightarrow> state" where
  "initial_state supported img =
     \<lparr>isOpen = False, capturedImage = None, error = [], permission = Prompt,
      isLoading = False, facingMode = User, isCameraReady = False,
      videoRef = None, canvasRef = None, readyCalledRef = False,
      imageRef = img, globalStream = None, alive = {}, nextStream = 0,
      mediaSupported = supported, pending = [], mounted = True\<rparr>"

section \<open>Rendering\<close>

text \<open>JavaScript truthiness of a \<^verbatim>\<open>string | null\<close>: neither \<^verbatim>\<open>null\<close> nor empty.\<close>

definition truthy :: "string option \<Rightarrow> bool" where
  "truthy x = (case x of None \<Rightarrow> False | Some u \<Rightarrow> u \<noteq> [])"

text \<open>\<^verbatim>\<open>renderCameraView\<close> (lines 296--396): which of the three subtrees is returned.\<close>

definition renderCameraView :: "state \<Rightarrow> View" where
  "renderCameraView s =
     (if error s \<noteq> [] then ErrorView
      else if truthy (capturedImage s) then PreviewView
      else LiveView)"

text \<open>The modal body (lines 406--428): nothing while closed, else the selected view.\<close>

definition rendered :: "state \<Rightarrow> View list" where
  "rendered s = (if isOpen s then [renderCameraView s] else [])"

text \<open>
  After every handler React commits the new tree. The \<^verbatim>\<open>video\<close> and \<^verbatim>\<open>canvas\<close>
  elements exist exactly while the live view is on screen (lines 353--360): they are
  kept while it stays, created afresh when it appears, and dropped otherwise, which
  sets the two refs back to \<^verbatim>\<open>null\<close>.
\<close>

definition commit :: "state \<Rightarrow> state" where
  "commit s =
     (if mounted s \<and> isOpen s \<and> renderCameraView s = LiveView
      then s\<lparr>videoRef := Some (case videoRef s of None \<Rightarrow> fresh_video | Some v \<Rightarrow> v),
             canvasRef := Some (case canvasRef s of None \<Rightarrow> fresh_canvas | Some c \<Rightarrow> c)\<rparr>
      else s\<lparr>videoRef := None, canvasRef := None\<rparr>)"

section \<open>The stream session\<close>

text \<open>
  \<^verbatim>\<open>stopExistingCameraStreams\<close> (lines 29--34): stops every track of the global stream,
  which ends that stream, and empties the slot.
\<close>

definition stopExistingCameraStreams :: "state \<Rightarrow> state" where
  "stopExistingCameraStreams s =
     s\<lparr>alive := (case globalStream s of None \<Rightarrow> alive s | Some h \<Rightarrow> alive s - {h}),
       globalStream := None\<rparr>"

text \<open>\<^verbatim>\<open>informCameraReady\<close> (lines 76--82).\<close>

definition informCameraReady :: "state \<Rightarrow> state" where
  "informCameraReady s =
     (if readyCalledRef s then s
      else s\<lparr>readyCalledRef := True, isCameraReady := True, isLoading := False\<rparr>)"

text \<open>
  \<^verbatim>\<open>startCamera\<close> up to its first \<^verbatim>\<open>await\<close> (lines 84--95). Without the MediaDevices
  API it throws an \<^verbatim>\<open>Error\<close>, whose name is \<^verbatim>\<open>Error\<close>, before touching anything;
  otherwise it releases the global stream and leaves the \<^verbatim>\<open>getUserMedia\<close> call in flight.
\<close>

definition startCamera :: "origin \<Rightarrow> FacingMode \<Rightarrow> state \<Rightarrow> string + state" where
  "startCamera orig fm s =
     (if \<not> mediaSupported s then Inl ''Error''
      else let s1 = stopExistingCameraStreams s
           in Inr (s1\<lparr>pending := pending s1 @ [GetUserMedia orig fm]\<rparr>))"

text \<open>
  What the caller does once \<^verbatim>\<open>startCamera\<close> has returned normally:
  \<^verbatim>\<open>requestCameraAccess\<close> records the permission (line 137), \<^verbatim>\<open>switchCamera\<close> does nothing.
\<close>

definition startCamera_returned :: "origin \<Rightarrow> state \<Rightarrow> state" where
  "startCamera_returned orig s =
     (case orig of RequestAccess \<Rightarrow> s\<lparr>permission := Granted\<rparr> | SwitchTry prior \<Rightarrow> s)"

text \<open>
  \<^verbatim>\<open>startCamera\<close> after \<^verbatim>\<open>getUserMedia\<close> has fulfilled (lines 93--121): the new stream
  goes into the global slot; if the video element is there, the latch and the
  readiness flag are reset, both listeners are armed, the stream is bound and
  \<^verbatim>\<open>play()\<close> is awaited; if it is not, the function returns at once.
\<close>

definition startCamera_resume :: "origin \<Rightarrow> state \<Rightarrow> state" where
  "startCamera_resume orig s =
     (let h = nextStream s;
          s1 = s\<lparr>alive := insert h (alive s), nextStream := Suc h, globalStream := Some h\<rparr>
      in case videoRef s1 of
           None \<Rightarrow> startCamera_returned orig s1
         | Some v \<Rightarrow>
             s1\<lparr>readyCalledRef := False, isCameraReady := False,
                videoRef := Some (v\<lparr>onplaying := True, oncanplay := True, srcObject := Some h\<rparr>),
                pending := pending s1 @ [Play orig]\<rparr>)"

text \<open>The \<^verbatim>\<open>catch\<close> block of \<^verbatim>\<open>requestCameraAccess\<close> (lines 138--155), by error name.\<close>

definition requestCameraAccess_catch :: "string \<Rightarrow> state \<Rightarrow> state" where
  "requestCameraAccess_catch name s =
     (let s1 =
        (if name = ''NotAllowedError'' then
           s\<lparr>error := ''Camera access denied. Please allow camera permission and try again.'',
             permission := Denied\<rparr>
         else if name = ''NotFoundError'' then
           s\<lparr>error := ''No camera found on this device.''\<rparr>
         else if name = ''NotReadableError'' then
           s\<lparr>error := ''Camera is already in use by another application.''\<rparr>
         else if name = ''OverconstrainedError'' then
           s\<lparr>error := ''Camera constraints cannot be satisfied.''\<rparr>
         else
           s\<lparr>error := ''Failed to access camera. Please try again.''\<rparr>)
      in s1\<lparr>isLoading := False\<rparr>)"

text \<open>
  \<^verbatim>\<open>requestCameraAccess\<close> up to the await (lines 124--136). The facing mode is the one
  its closure holds, passed here as an argument.
\<close>

definition requestCameraAccess :: "FacingMode \<Rightarrow> state \<Rightarrow> state" where
  "requestCameraAccess fm s =
     (let s1 = s\<lparr>isLoading := True, error := [], isCameraReady := False\<rparr>
      in case startCamera RequestAccess fm s1 of
           Inl name \<Rightarrow> requestCameraAccess_catch name s1
         | Inr s2 \<Rightarrow> s2)"

text \<open>\<^verbatim>\<open>stopCamera\<close> (lines 158--162).\<close>

definition stopCamera :: "state \<Rightarrow> state" where
  "stopCamera s = (stopExistingCameraStreams s)\<lparr>isCameraReady := False, readyCalledRef := False\<rparr>"

text \<open>\<^verbatim>\<open>handleOpen\<close> (lines 164--172).\<close>

definition handleOpen :: "state \<Rightarrow> state" where
  "handleOpen s =
     (let s1 = s\<lparr>isOpen := True, capturedImage := None, error := []\<rparr>
      in if permission s = Granted \<or> permission s = Prompt
         then requestCameraAccess (facingMode s) s1
         else s1)"

text \<open>\<^verbatim>\<open>handleClose\<close> (lines 174--180).\<close>

definition handleClose :: "state \<Rightarrow> state" where
  "handleClose s =
     (stopCamera (s\<lparr>isOpen := False\<rparr>))\<lparr>capturedImage := None, error := [], isLoading := False\<rparr>"

text \<open>
  The \<^verbatim>\<open>catch\<close> block of \<^verbatim>\<open>switchCamera\<close> (lines 198--205); \<open>prior\<close> is the
  \<^verbatim>\<open>facingMode\<close> of the closure, the value from before the toggle. It is split in two:
  the two setters, and the call of \<^verbatim>\<open>requestCameraAccess\<close> from the same closure.
\<close>

definition switchCamera_revert :: "FacingMode \<Rightarrow> state \<Rightarrow> state" where
  "switchCamera_revert prior s =
     s\<lparr>error := ''Failed to switch camera. Using default camera.'', facingMode := prior\<rparr>"

definition switchCamera_catch :: "FacingMode \<Rightarrow> state \<Rightarrow> state" where
  "switchCamera_catch prior s = requestCameraAccess prior (switchCamera_revert prior s)"

text \<open>\<^verbatim>\<open>switchCamera\<close> up to the await (lines 182--197).\<close>

definition toggle :: "FacingMode \<Rightarrow> FacingMode" where
  "toggle fm = (if fm = User then Environment else User)"

definition switchCamera :: "state \<Rightarrow> state" where
  "switchCamera s =
     (let prior = facingMode s;
          newFacingMode = toggle prior;
          s1 = s\<lparr>facingMode := newFacingMode\<rparr>
      in if globalStream s1 \<noteq> None then
           (let s2 = s1\<lparr>isLoading := True, isCameraReady := False\<rparr>
            in case startCamera (SwitchTry prior) newFacingMode s2 of
                 Inl name \<Rightarrow> switchCamera_catch prior s2
               | Inr s3 \<Rightarrow> s3)
         else s1)"

section \<open>Capture, confirm, retake\<close>

text \<open>
  Assigning \<^verbatim>\<open>canvas.width\<close> or \<^verbatim>\<open>canvas.height\<close> (lines 232--233). Both reflect an
  \<^verbatim>\<open>unsigned long\<close> attribute limited to \<open>2\<^sup>3\<^sup>1 - 1\<close>: a larger value is replaced by the
  attribute's default, 300 for the width and 150 for the height. The code reads the
  canvas size back when it draws (lines 241, 243).
\<close>

definition set_canvas_dimension :: "nat \<Rightarrow> nat \<Rightarrow> nat" where
  "set_canvas_dimension dflt v = (if v \<le> 2147483647 then v else dflt)"

text \<open>
  \<^verbatim>\<open>capturePhoto\<close> (lines 209--255). Assigning \<^verbatim>\<open>canvas.width\<close> resets the canvas, so the
  drawing operations recorded are those of this call.
\<close>

definition capturePhoto :: "snapshot \<Rightarrow> state \<Rightarrow> state" where
  "capturePhoto p s =
     (case (videoRef s, canvasRef s) of
        (Some video, Some canvas) \<Rightarrow>
          if \<not> isCameraReady s then s
          else if \<not> context2d p then s\<lparr>error := ''Canvas context not supported''\<rparr>
          else if videoWidth p = 0 \<or> videoHeight p = 0 then
            s\<lparr>error := ''Video not ready. Please wait a moment and try again.''\<rparr>
          else
            (let sized = canvas\<lparr>width := set_canvas_dimension 300 (videoWidth p),
                                height := set_canvas_dimension 150 (videoHeight p), ops := []\<rparr>;
                 drawn =
                   (if facingMode s = User
                    then sized\<lparr>ops := [Scale (- 1) 1,
                                        DrawImage 0 0 (- 1 * int (width sized)) (int (height sized))]\<rparr>
                    else sized\<lparr>ops := [DrawImage 0 0 (int (width sized)) (int (height sized))]\<rparr>);
                 imageDataUrl = toDataURL p drawn ''image/jpeg'' 0.8;
                 s1 = s\<lparr>canvasRef := Some drawn\<rparr>
             in if imageDataUrl \<noteq> [] \<and> imageDataUrl \<noteq> ''data:,''
                then s1\<lparr>capturedImage := Some imageDataUrl\<rparr>
                else s1\<lparr>error := ''Failed to capture photo. Please try again.''\<rparr>)
      | _ \<Rightarrow> s)"

text \<open>\<^verbatim>\<open>confirmPhoto\<close> (lines 257--262).\<close>

definition confirmPhoto :: "state \<Rightarrow> state" where
  "confirmPhoto s =
     (case (capturedImage s, imageRef s) of
        (Some url, Some img) \<Rightarrow>
          if url \<noteq> [] then handleClose (s\<lparr>imageRef := Some (img\<lparr>src := url\<rparr>)\<rparr>) else s
      | _ \<Rightarrow> s)"

text \<open>\<^verbatim>\<open>retakePhoto\<close> (lines 264--266).\<close>

definition retakePhoto :: "state \<Rightarrow> state" where
  "retakePhoto s = s\<lparr>capturedImage := None\<rparr>"

section \<open>Events\<close>

text \<open>Taking the \<open>k\<close>-th suspended call out of the queue.\<close>

definition take_task :: "nat \<Rightarrow> task list \<Rightarrow> (task \<times> task list) option" where
  "take_task k ts = (if k < length ts then Some (ts ! k, take k ts @ drop (Suc k) ts) else None)"

definition getUserMedia_fulfilled :: "nat \<Rightarrow> state \<Rightarrow> state" where
  "getUserMedia_fulfilled k s =
     (case take_task k (pending s) of
        Some (GetUserMedia orig fm, rest) \<Rightarrow> startCamera_resume orig (s\<lparr>pending := rest\<rparr>)
      | _ \<Rightarrow> s)"

definition getUserMedia_rejected :: "nat \<Rightarrow> string \<Rightarrow> state \<Rightarrow> state" where
  "getUserMedia_rejected k name s =
     (case take_task k (pending s) of
        Some (GetUserMedia RequestAccess fm, rest) \<Rightarrow>
          requestCameraAccess_catch name (s\<lparr>pending := rest\<rparr>)
      | Some (GetUserMedia (SwitchTry prior) fm, rest) \<Rightarrow>
          switchCamera_catch prior (s\<lparr>pending := rest\<rparr>)
      | _ \<Rightarrow> s)"

text \<open>
  \<^verbatim>\<open>play()\<close> settles (lines 110--120). A rejection is caught inside \<^verbatim>\<open>startCamera\<close> and
  only schedules one more \<^verbatim>\<open>play()\<close>, so either way \<^verbatim>\<open>startCamera\<close> returns normally.
\<close>

definition play_settled :: "nat \<Rightarrow> state \<Rightarrow> state" where
  "play_settled k s =
     (case take_task k (pending s) of
        Some (Play orig, rest) \<Rightarrow> startCamera_returned orig (s\<lparr>pending := rest\<rparr>)
      | _ \<Rightarrow> s)"

text \<open>
  The cleanup effect on unmount (lines 55--59). A continuation that runs afterwards
  still assigns \<^verbatim>\<open>globalStream\<close>; what it writes to the state cells of the unmounted
  component is kept in the record but no longer read by any handler or view.
\<close>

definition unmount :: "state \<Rightarrow> state" where
  "unmount s = (stopExistingCameraStreams s)\<lparr>mounted := False\<rparr>"

datatype event =
    TriggerClick
  | CloseClick
  | RetryClick
  | SwitchCameraClick
  | CaptureClick snapshot
  | RetakeClick
  | ConfirmClick
  | Unmount
  | PermissionChange PermissionState
  | MediaFulfilled nat
  | MediaRejected nat string
  | PlaySettled nat bool
  | VideoPlaying
  | VideoCanPlay

text \<open>
  One event: the handler the JSX wires to it, if the element that carries the handler
  is on screen and enabled, and then the commit. The switch and capture buttons are
  \<^verbatim>\<open>disabled\<close> while the camera is not ready (lines 378, 389). Promise continuations
  run whether or not the component is still mounted. \<open>PermissionChange\<close> stands both
  for the answer to the permission query made on mount and for a later \<^verbatim>\<open>onchange\<close>
  (lines 61--74); \<open>MediaFulfilled k\<close> and \<open>MediaRejected k name\<close> settle the \<open>k\<close>-th
  suspended call when it is a \<^verbatim>\<open>getUserMedia\<close> call, \<open>PlaySettled k ok\<close> when it is a
  \<^verbatim>\<open>play()\<close> call; \<open>VideoPlaying\<close> and \<open>VideoCanPlay\<close> are the two media events.
\<close>

definition handle :: "event \<Rightarrow> state \<Rightarrow> state" where
  "handle e s =
     (case e of
        TriggerClick \<Rightarrow> if mounted s then handleOpen s else s
      | CloseClick \<Rightarrow> if mounted s \<and> isOpen s then handleClose s else s
      | RetryClick \<Rightarrow>
          if mounted s \<and> rendered s = [ErrorView] then requestCameraAccess (facingMode s) s else s
      | SwitchCameraClick \<Rightarrow>
          if mounted s \<and> rendered s = [LiveView] \<and> isCameraReady s then switchCamera s else s
      | CaptureClick p \<Rightarrow>
          if mounted s \<and> rendered s = [LiveView] \<and> isCameraReady s then capturePhoto p s else s
      | RetakeClick \<Rightarrow> if mounted s \<and> rendered s = [PreviewView] then retakePhoto s else s
      | ConfirmClick \<Rightarrow> if mounted s \<and> rendered s = [PreviewView] then confirmPhoto s else s
      | Unmount \<Rightarrow> if mounted s then unmount s else s
      | PermissionChange p \<Rightarrow> if mounted s then s\<lparr>permission := p\<rparr> else s
      | MediaFulfilled k \<Rightarrow> getUserMedia_fulfilled k s
      | MediaRejected k name \<Rightarrow> getUserMedia_rejected k name s
      | PlaySettled k ok \<Rightarrow> play_settled k s
      | VideoPlaying \<Rightarrow>
          (case videoRef s of
             Some v \<Rightarrow> if onplaying v then informCameraReady s else s
           | None \<Rightarrow> s)
      | VideoCanPlay \<Rightarrow>
          (case videoRef s of
             Some v \<Rightarrow> if oncanplay v then informCameraReady s else s
           | None \<Rightarrow> s))"

definition step :: "event \<Rightarrow> state \<Rightarrow> state" where
  "step e s = commit (handle e s)"

fun run :: "state \<Rightarrow> event list \<Rightarrow> state" where
  "run s [] = s"
| "run s (e # es) = run (step e s) es"

section \<open>Readiness per stream\<close>

text \<open>The stream the mounted video element shows, if any.\<close>

definition bound_stream :: "state \<Rightarrow> stream option" where
  "bound_stream s = (case videoRef s of None \<Rightarrow> None | Some v \<Rightarrow> srcObject v)"

text \<open>
  How often, along a sequence of events, \<^verbatim>\<open>isCameraReady\<close> goes from false to true while
  the video element shows stream \<open>h\<close>.
\<close>

fun latchings :: "stream \<Rightarrow> state \<Rightarrow> event list \<Rightarrow> nat" where
  "latchings h s [] = 0"
| "latchings h s (e # es) =
     (if \<not> isCameraReady s \<and> isCameraReady (step e s) \<and> bound_stream s = Some h then 1 else 0)
       + latchings h (step e s) es"

text \<open>
  Two auxiliary predicates for the proofs: a video element has its listeners armed only
  together with a stream, and that stream was handed out earlier; and stream \<open>h\<close> can
  still latch, being either not handed out yet or shown with the latch open.
\<close>

definition video_inv :: "state \<Rightarrow> bool" where
  "video_inv s =
     (case videoRef s of
        None \<Rightarrow> True
      | Some v \<Rightarrow>
          (case srcObject v of
             None \<Rightarrow> \<not> onplaying v \<and> \<not> oncanplay v
           | Some h \<Rightarrow> h < nextStream s))"

definition may_latch :: "stream \<Rightarrow> state \<Rightarrow> bool" where
  "may_latch h s = (nextStream s \<le> h \<or> (bound_stream s = Some h \<and> \<not> readyCalledRef s))"

text \<open>A handler that leaves the video element, the stream counter and the latch alone.\<close>

definition keeps_latch :: "state \<Rightarrow> state \<Rightarrow> bool" where
  "keeps_latch s s' =
     (videoRef s' = videoRef s \<and> nextStream s' = nextStream s \<and>
      readyCalledRef s' = readyCalledRef s \<and> (isCameraReady s' \<longrightarrow> isCameraReady s))"

text \<open>
  What one handler can do to the video element, the stream counter, the latch and the
  flag: (a) leave element alone, never lower the counter, never reopen the latch, and
  raise the flag only by closing an open latch on an element with an armed listener;
  (b) close the modal; (c) bind a fresh stream with the latch reopened.
\<close>

definition latch_quiet :: "state \<Rightarrow> state \<Rightarrow> bool" where
  "latch_quiet s s' =
     (videoRef s' = videoRef s \<and> nextStream s \<le> nextStream s' \<and>
      (readyCalledRef s \<longrightarrow> readyCalledRef s') \<and>
      (isCameraReady s' \<and> \<not> isCameraReady s \<longrightarrow>
         \<not> readyCalledRef s \<and> readyCalledRef s' \<and>
         (\<exists>v. videoRef s = Some v \<and> (onplaying v \<or> oncanplay v))))"

definition latch_closed :: "state \<Rightarrow> state \<Rightarrow> bool" where
  "latch_closed s s' =
     (videoRef s' = videoRef s \<and> nextStream s' = nextStream s \<and>
      \<not> isOpen s' \<and> \<not> isCameraReady s')"

definition latch_rebound :: "state \<Rightarrow> state \<Rightarrow> bool" where
  "latch_rebound s s' =
     (\<exists>v. videoRef s = Some v \<and>
        videoRef s' = Some (v\<lparr>onplaying := True, oncanplay := True,
                               srcObject := Some (nextStream s)\<rparr>) \<and>
        nextStream s' = Suc (nextStream s) \<and> \<not> readyCalledRef s' \<and> \<not> isCameraReady s')"

text \<open>A platform report used in the examples: a 640 by 480 video and a working encoder.\<close>

definition sample_snapshot :: snapshot where
  "sample_snapshot =
     \<lparr>videoWidth = 640, videoHeight = 480, context2d = True,
      toDataURL = (\<lambda>c t q. ''data:image/jpeg;base64,QUJD'')\<rparr>"

section \<open>One stream at a time\<close>

text \<open>
  The number of \<^verbatim>\<open>getUserMedia\<close> calls in flight, and the discipline under which the
  single-stream property is proved below: along the run there is never more than one
  such call in flight.
\<close>

fun is_media :: "task \<Rightarrow> bool" where
  "is_media (GetUserMedia orig fm) = True"
| "is_media (Play orig) = False"

definition in_flight :: "state \<Rightarrow> nat" where
  "in_flight s = length (filter is_media (pending s))"

fun serial :: "state \<Rightarrow> event list \<Rightarrow> bool" where
  "serial s [] = True"
| "serial s (e # es) = (in_flight (step e s) \<le> 1 \<and> serial (step e s) es)"

text \<open>
  The slot invariant: the alive streams are exactly the one in the global slot, at most
  one call is in flight, and while one is in flight the slot is empty.
\<close>

definition slot_inv :: "state \<Rightarrow> bool" where
  "slot_inv s =
     (alive s = set_option (globalStream s) \<and> in_flight s \<le> 1 \<and>
      (in_flight s = 1 \<longrightarrow> globalStream s = None))"

text \<open>
  What one handler can do to the slot: nothing, apart from dropping a settled
  \<^verbatim>\<open>play()\<close> or a rejected call; release it; release it and start a call; or store
  the stream of a fulfilled call.
\<close>

definition slot_quiet :: "state \<Rightarrow> state \<Rightarrow> bool" where
  "slot_quiet s s' =
     (alive s' = alive s \<and> globalStream s' = globalStream s \<and> in_flight s' \<le> in_flight s)"

definition slot_released :: "state \<Rightarrow> state \<Rightarrow> bool" where
  "slot_released s s' =
     (alive s' = alive s - set_option (globalStream s) \<and> globalStream s' = None \<and>
      in_flight s' \<le> in_flight s)"

definition slot_started :: "state \<Rightarrow> state \<Rightarrow> bool" where
  "slot_started s s' =
     (alive s' = alive s - set_option (globalStream s) \<and> globalStream s' = None \<and>
      in_flight s' \<le> Suc (in_flight s))"

definition slot_filled :: "state \<Rightarrow> state \<Rightarrow> bool" where
  "slot_filled s s' =
     (alive s' = insert (nextStream s) (alive s) \<and> globalStream s' = Some (nextStream s) \<and>
      Suc (in_flight s') = in_flight s)"

section \<open>Rendering: the three-way selector\<close>

lemma commit_idem: "commit (commit s) = commit s"
  by (simp add: commit_def renderCameraView_def)

lemma committed_video_live:
  assumes c: "commit s = s" and v: "videoRef s \<noteq> None"
  shows "mounted s \<and> isOpen s \<and> renderCameraView s = LiveView"
proof (rule ccontr)
  assume "\<not> (mounted s \<and> isOpen s \<and> renderCameraView s = LiveView)"
  then have "videoRef (commit s) = None" by (simp add: commit_def)
  with c v show False by simp
qed

text \<open>
  C9. While the modal is open exactly one view is rendered, and it is chosen in the
  order error, preview, live: a non-empty error wins over a captured frame, and a
  captured frame wins over the live feed.
\<close>

theorem view_selector_priority:
  "isOpen s \<Longrightarrow>
     length (rendered s) = 1 \<and>
     (error s \<noteq> [] \<longrightarrow> rendered s = [ErrorView]) \<and>
     (error s = [] \<and> truthy (capturedImage s) \<longrightarrow> rendered s = [PreviewView]) \<and>
     (error s = [] \<and> \<not> truthy (capturedImage s) \<longrightarrow> rendered s = [LiveView])"
  by (simp add: rendered_def renderCameraView_def)

theorem view_selector_priority_witness:
  "isOpen ((initial_state True None)\<lparr>isOpen := True, capturedImage := Some ''data:x'', error := ''e''\<rparr>) \<and>
   rendered ((initial_state True None)\<lparr>isOpen := True, capturedImage := Some ''data:x'', error := ''e''\<rparr>)
     = [ErrorView] \<and>
   isOpen ((initial_state True None)\<lparr>isOpen := True, capturedImage := Some ''data:x''\<rparr>) \<and>
   rendered ((initial_state True None)\<lparr>isOpen := True, capturedImage := Some ''data:x''\<rparr>)
     = [PreviewView] \<and>
   isOpen ((initial_state True None)\<lparr>isOpen := True\<rparr>) \<and>
   rendered ((initial_state True None)\<lparr>isOpen := True\<rparr>) = [LiveView]"
  using
    view_selector_priority
      [of "(initial_state True None)\<lparr>isOpen := True, capturedImage := Some ''data:x'', error := ''e''\<rparr>"]
    view_selector_priority
      [of "(initial_state True None)\<lparr>isOpen := True, capturedImage := Some ''data:x''\<rparr>"]
    view_selector_priority [of "(initial_state True None)\<lparr>isOpen := True\<rparr>"]
  by (simp add: initial_state_def truthy_def)

section \<open>Capture\<close>

lemma capturePhoto_unbound:
  "videoRef s = None \<or> canvasRef s = None \<Longrightarrow> capturePhoto p s = s"
  by (cases "videoRef s"; cases "canvasRef s") (simp_all add: capturePhoto_def)

lemma capturePhoto_bound:
  "videoRef s = Some v \<Longrightarrow> canvasRef s = Some c \<Longrightarrow>
   capturePhoto p s =
     (if \<not> isCameraReady s then s
      else if \<not> context2d p then s\<lparr>error := ''Canvas context not supported''\<rparr>
      else if videoWidth p = 0 \<or> videoHeight p = 0 then
        s\<lparr>error := ''Video not ready. Please wait a moment and try again.''\<rparr>
      else
        (let sized = c\<lparr>width := set_canvas_dimension 300 (videoWidth p),
                           height := set_canvas_dimension 150 (videoHeight p), ops := []\<rparr>;
             drawn =
               (if facingMode s = User
                then sized\<lparr>ops := [Scale (- 1) 1,
                                    DrawImage 0 0 (- 1 * int (width sized)) (int (height sized))]\<rparr>
                else sized\<lparr>ops := [DrawImage 0 0 (int (width sized)) (int (height sized))]\<rparr>);
             imageDataUrl = toDataURL p drawn ''image/jpeg'' 0.8;
             s1 = s\<lparr>canvasRef := Some drawn\<rparr>
         in if imageDataUrl \<noteq> [] \<and> imageDataUrl \<noteq> ''data:,''
            then s1\<lparr>capturedImage := Some imageDataUrl\<rparr>
            else s1\<lparr>error := ''Failed to capture photo. Please try again.''\<rparr>))"
  unfolding capturePhoto_def by simp

lemma capturePhoto_rejected_cases:
  assumes "\<not> isCameraReady s \<or> videoRef s = None \<or> canvasRef s = None \<or> \<not> context2d p
      \<or> videoWidth p = 0 \<or> videoHeight p = 0"
  shows "capturePhoto p s = s
       \<or> capturePhoto p s = s\<lparr>error := ''Canvas context not supported''\<rparr>
       \<or> capturePhoto p s = s\<lparr>error := ''Video not ready. Please wait a moment and try again.''\<rparr>"
proof (cases "videoRef s")
  case None
  then show ?thesis by (simp add: capturePhoto_unbound)
next
  case (Some v)
  note v = this
  show ?thesis
  proof (cases "canvasRef s")
    case None
    then show ?thesis by (simp add: capturePhoto_unbound)
  next
    case (Some c)
    from assms v Some
    have "\<not> isCameraReady s \<or> \<not> context2d p \<or> videoWidth p = 0 \<or> videoHeight p = 0"
      by simp
    then show ?thesis
      unfolding capturePhoto_bound [OF v Some] by (elim disjE) simp_all
  qed
qed

text \<open>
  C3. If the readiness flag is false, or the video or the drawing surface is unbound,
  or no 2D context is available, or the video reports a zero width or height (so in
  particular 0 by 0), capture is rejected: the state is the old one except possibly
  for the error message, no frame is stored, the canvas is untouched, and the view
  does not become the preview.
\<close>

theorem capture_rejected:
  assumes "\<not> isCameraReady s \<or> videoRef s = None \<or> canvasRef s = None \<or> \<not> context2d p
      \<or> videoWidth p = 0 \<or> videoHeight p = 0"
  shows "capturePhoto p s = s\<lparr>error := error (capturePhoto p s)\<rparr> \<and>
     capturedImage (capturePhoto p s) = capturedImage s \<and>
     canvasRef (capturePhoto p s) = canvasRef s \<and>
     (renderCameraView (capturePhoto p s) = PreviewView \<longrightarrow> renderCameraView s = PreviewView) \<and>
     error (capturePhoto p s) \<in> {error s, ''Canvas context not supported'',
        ''Video not ready. Please wait a moment and try again.''}"
proof -
  from capturePhoto_rejected_cases [OF assms]
  consider (quiet) "capturePhoto p s = s"
    | (ctx) "capturePhoto p s = s\<lparr>error := ''Canvas context not supported''\<rparr>"
    | (dims) "capturePhoto p s = s\<lparr>error := ''Video not ready. Please wait a moment and try again.''\<rparr>"
    by blast
  then show ?thesis
  proof cases
    case quiet
    then show ?thesis by simp
  next
    case ctx
    then show ?thesis by (simp add: renderCameraView_def)
  next
    case dims
    then show ?thesis by (simp add: renderCameraView_def)
  qed
qed

theorem capture_rejected_witness:
  "videoWidth \<lparr>videoWidth = 0, videoHeight = 0, context2d = True, toDataURL = (\<lambda>c t q. ''data:image/jpeg;base64,QUJD'')\<rparr> = 0 \<and>
   error (capturePhoto
     \<lparr>videoWidth = 0, videoHeight = 0, context2d = True, toDataURL = (\<lambda>c t q. ''data:image/jpeg;base64,QUJD'')\<rparr>
     ((initial_state True None)\<lparr>isOpen := True, isCameraReady := True,
        videoRef := Some fresh_video, canvasRef := Some fresh_canvas\<rparr>))
     = ''Video not ready. Please wait a moment and try again.'' \<and>
   capturedImage (capturePhoto
     \<lparr>videoWidth = 0, videoHeight = 0, context2d = True, toDataURL = (\<lambda>c t q. ''data:image/jpeg;base64,QUJD'')\<rparr>
     ((initial_state True None)\<lparr>isOpen := True, isCameraReady := True,
        videoRef := Some fresh_video, canvasRef := Some fresh_canvas\<rparr>)) = None"
  using capture_rejected
    [of "(initial_state True None)\<lparr>isOpen := True, isCameraReady := True,
            videoRef := Some fresh_video, canvasRef := Some fresh_canvas\<rparr>"
        "\<lparr>videoWidth = 0, videoHeight = 0, context2d = True, toDataURL = (\<lambda>c t q. ''data:image/jpeg;base64,QUJD'')\<rparr>"]
  by (simp add: initial_state_def capturePhoto_def)

text \<open>
  C4. When every guard passes and the intrinsic width and height of the video are
  values a canvas dimension can hold (at most \<open>2\<^sup>3\<^sup>1 - 1\<close>), the canvas gets exactly the
  intrinsic size of the video;
  the horizontal flip \<^verbatim>\<open>scale(-1, 1)\<close> precedes the drawing if and only if the facing
  mode is \<^verbatim>\<open>user\<close>; the frame is encoded with \<^verbatim>\<open>toDataURL('image/jpeg', 0.8)\<close>; an empty
  result or \<^verbatim>\<open>data:,\<close> sets the capture-failure message and stores nothing; any other
  result becomes the captured frame, and the view, which was the live one, becomes
  the preview.
\<close>

theorem capture_proceeds:
  fixes s :: state and p :: snapshot and c :: canvas_el
  defines "drawn \<equiv>
     c\<lparr>width := videoWidth p, height := videoHeight p,
       ops := (if facingMode s = User
               then [Scale (- 1) 1, DrawImage 0 0 (- int (videoWidth p)) (int (videoHeight p))]
               else [DrawImage 0 0 (int (videoWidth p)) (int (videoHeight p))])\<rparr>"
  defines "url \<equiv> toDataURL p drawn ''image/jpeg'' 0.8"
  assumes "videoRef s = Some v" and "canvasRef s = Some c" and "isCameraReady s"
    and "context2d p" and "videoWidth p \<noteq> 0" and "videoHeight p \<noteq> 0"
    and "videoWidth p \<le> 2147483647" and "videoHeight p \<le> 2147483647"
  shows "canvasRef (capturePhoto p s) = Some drawn \<and>
     width drawn = videoWidth p \<and> height drawn = videoHeight p \<and>
     (Scale (- 1) 1 \<in> set (ops drawn) \<longleftrightarrow> facingMode s = User) \<and>
     (url = [] \<or> url = ''data:,'' \<longrightarrow>
        capturedImage (capturePhoto p s) = capturedImage s \<and>
        error (capturePhoto p s) = ''Failed to capture photo. Please try again.'') \<and>
     (url \<noteq> [] \<and> url \<noteq> ''data:,'' \<longrightarrow>
        capturedImage (capturePhoto p s) = Some url \<and>
        error (capturePhoto p s) = error s \<and>
        (error s = [] \<longrightarrow> renderCameraView (capturePhoto p s) = PreviewView) \<and>
        (commit s = s \<longrightarrow> rendered (capturePhoto p s) = [PreviewView]))"
proof -
  have live: "commit s = s \<Longrightarrow> isOpen s \<and> error s = []"
    using committed_video_live [of s] assms(3)
    by (auto simp: renderCameraView_def split: if_splits)
  have eq: "capturePhoto p s =
      (if url \<noteq> [] \<and> url \<noteq> ''data:,''
       then s\<lparr>canvasRef := Some drawn, capturedImage := Some url\<rparr>
       else s\<lparr>canvasRef := Some drawn, error := ''Failed to capture photo. Please try again.''\<rparr>)"
    unfolding capturePhoto_bound [OF assms(3,4)] url_def drawn_def
    using assms(5-10) by (simp add: Let_def set_canvas_dimension_def)
  have shape: "width drawn = videoWidth p \<and> height drawn = videoHeight p \<and>
     (Scale (- 1) 1 \<in> set (ops drawn) \<longleftrightarrow> facingMode s = User)"
    by (simp add: drawn_def)
  show ?thesis
  proof (cases "url \<noteq> [] \<and> url \<noteq> ''data:,''")
    case True
    then show ?thesis
      using shape live by (simp add: eq renderCameraView_def rendered_def truthy_def)
  next
    case False
    then show ?thesis
      using shape by (auto simp: eq)
  qed
qed

theorem capture_proceeds_witness:
  "isCameraReady ((initial_state True None)\<lparr>isOpen := True, isCameraReady := True,
        videoRef := Some fresh_video, canvasRef := Some fresh_canvas\<rparr>) \<and>
   capturePhoto
     \<lparr>videoWidth = 640, videoHeight = 480, context2d = True, toDataURL = (\<lambda>c t q. ''data:image/jpeg;base64,QUJD'')\<rparr>
     ((initial_state True None)\<lparr>isOpen := True, isCameraReady := True,
        videoRef := Some fresh_video, canvasRef := Some fresh_canvas\<rparr>)
   = (initial_state True None)\<lparr>isOpen := True, isCameraReady := True,
        videoRef := Some fresh_video,
        canvasRef := Some \<lparr>width = 640, height = 480,
                            ops = [Scale (- 1) 1, DrawImage 0 0 (- 640) 480]\<rparr>,
        capturedImage := Some ''data:image/jpeg;base64,QUJD''\<rparr> \<and>
   rendered (capturePhoto
     \<lparr>videoWidth = 640, videoHeight = 480, context2d = True, toDataURL = (\<lambda>c t q. ''data:image/jpeg;base64,QUJD'')\<rparr>
     ((initial_state True None)\<lparr>isOpen := True, isCameraReady := True,
        videoRef := Some fresh_video, canvasRef := Some fresh_canvas\<rparr>)) = [PreviewView]"
  using capture_proceeds
    [of "(initial_state True None)\<lparr>isOpen := True, isCameraReady := True,
            videoRef := Some fresh_video, canvasRef := Some fresh_canvas\<rparr>"
        fresh_video fresh_canvas
        "\<lparr>videoWidth = 640, videoHeight = 480, context2d = True, toDataURL = (\<lambda>c t q. ''data:image/jpeg;base64,QUJD'')\<rparr>"]
  by (simp add: initial_state_def capturePhoto_def fresh_canvas_def rendered_def
        renderCameraView_def truthy_def set_canvas_dimension_def)

text \<open>Beyond that range the canvas falls back to its default size, whatever the video reports.\<close>

lemma capture_oversize:
  "canvasRef (capturePhoto
     \<lparr>videoWidth = 2147483648, videoHeight = 480, context2d = True,
      toDataURL = (\<lambda>c t q. ''data:image/jpeg;base64,QUJD'')\<rparr>
     ((initial_state True None)\<lparr>isOpen := True, isCameraReady := True, facingMode := Environment,
        videoRef := Some fresh_video, canvasRef := Some fresh_canvas\<rparr>))
   = Some \<lparr>width = 300, height = 480, ops = [DrawImage 0 0 300 480]\<rparr>"
  by (simp add: initial_state_def capturePhoto_def fresh_canvas_def set_canvas_dimension_def)

section \<open>Confirm\<close>

text \<open>
  C10. Confirming while there is no captured frame, or while the caller's image
  reference is unbound, changes nothing at all: the image reference is not written,
  the modal stays as it is, the stream is not released and the frame, if any, stays.
\<close>

theorem confirm_noop:
  "\<not> truthy (capturedImage s) \<or> imageRef s = None \<Longrightarrow> confirmPhoto s = s"
  by (cases "capturedImage s"; cases "imageRef s") (auto simp: confirmPhoto_def truthy_def)

theorem confirm_noop_witness:
  "imageRef ((initial_state True None)\<lparr>isOpen := True, capturedImage := Some ''data:x'',
       globalStream := Some 0, alive := {0}\<rparr>) = None \<and>
   confirmPhoto ((initial_state True None)\<lparr>isOpen := True, capturedImage := Some ''data:x'',
       globalStream := Some 0, alive := {0}\<rparr>)
   = (initial_state True None)\<lparr>isOpen := True, capturedImage := Some ''data:x'',
       globalStream := Some 0, alive := {0}\<rparr>"
  using confirm_noop [of "(initial_state True None)\<lparr>isOpen := True,
       capturedImage := Some ''data:x'', globalStream := Some 0, alive := {0}\<rparr>"]
  by (simp add: initial_state_def)

section \<open>Acquisition failures\<close>

lemma renderCameraView_commit: "renderCameraView (commit s) = renderCameraView s"
  by (simp add: commit_def renderCameraView_def)

lemma take_task_last: "take_task (length ts) (ts @ [t]) = Some (t, ts)"
  by (simp add: take_task_def)

lemma catch_error:
  "error (requestCameraAccess_catch name s) =
     (if name = ''NotAllowedError'' then ''Camera access denied. Please allow camera permission and try again.''
      else if name = ''NotFoundError'' then ''No camera found on this device.''
      else if name = ''NotReadableError'' then ''Camera is already in use by another application.''
      else if name = ''OverconstrainedError'' then ''Camera constraints cannot be satisfied.''
      else ''Failed to access camera. Please try again.'')"
  by (simp add: requestCameraAccess_catch_def)

lemma catch_permission:
  "permission (requestCameraAccess_catch name s) =
     (if name = ''NotAllowedError'' then Denied else permission s)"
  by (simp add: requestCameraAccess_catch_def)

lemma catch_isLoading: "isLoading (requestCameraAccess_catch name s) = False"
  by (simp add: requestCameraAccess_catch_def Let_def)

lemma catch_error_nonempty: "error (requestCameraAccess_catch name s) \<noteq> []"
  by (simp add: catch_error)

lemma catch_view: "renderCameraView (requestCameraAccess_catch name s) = ErrorView"
  using catch_error_nonempty [of name s] by (simp add: renderCameraView_def)

text \<open>
  C5, as stated, at a switch whose acquisition is rejected with \<^verbatim>\<open>NotAllowedError\<close>: the
  modal is open, the first stream is bound and ready, the switch button is pressed and
  the \<^verbatim>\<open>getUserMedia\<close> call of \<^verbatim>\<open>switchCamera\<close> is rejected. The \<^verbatim>\<open>catch\<close> block of
  \<^verbatim>\<open>switchCamera\<close> (lines 198--205) does not look at the error's name: the permission
  stays as it was, no denial message is set, the loading flag is true and the live
  view is on screen, with the fallback call in flight.
\<close>

theorem switch_rejection_unclassified_counterexample:
  "permission (run (initial_state True None)
      [TriggerClick, MediaFulfilled 0, VideoCanPlay, SwitchCameraClick,
       MediaRejected 1 ''NotAllowedError'']) = Prompt \<and>
   error (run (initial_state True None)
      [TriggerClick, MediaFulfilled 0, VideoCanPlay, SwitchCameraClick,
       MediaRejected 1 ''NotAllowedError'']) = [] \<and>
   isLoading (run (initial_state True None)
      [TriggerClick, MediaFulfilled 0, VideoCanPlay, SwitchCameraClick,
       MediaRejected 1 ''NotAllowedError'']) = True \<and>
   rendered (run (initial_state True None)
      [TriggerClick, MediaFulfilled 0, VideoCanPlay, SwitchCameraClick,
       MediaRejected 1 ''NotAllowedError'']) = [LiveView]"
  by (simp add: initial_state_def step_def handle_def commit_def renderCameraView_def
      rendered_def truthy_def handleOpen_def requestCameraAccess_def switchCamera_def
      switchCamera_catch_def switchCamera_revert_def toggle_def
      startCamera_def stopExistingCameraStreams_def getUserMedia_fulfilled_def
      getUserMedia_rejected_def take_task_def startCamera_resume_def startCamera_returned_def
      fresh_video_def fresh_canvas_def informCameraReady_def Let_def)

text \<open>
  C5, amended. A failed acquisition in \<^verbatim>\<open>requestCameraAccess\<close>, which serves open, retry
  and the fallback after a failed switch, is classified by the error's name, the
  first matching name deciding: \<^verbatim>\<open>NotAllowedError\<close> sets the permission to denied and the
  denial message, \<^verbatim>\<open>NotFoundError\<close>, \<^verbatim>\<open>NotReadableError\<close> and \<^verbatim>\<open>OverconstrainedError\<close>
  their messages, every other name the generic message; in each case the loading flag
  is cleared and the selector is at the error view. Both ways a failure arrives end in
  this classification: a rejected \<^verbatim>\<open>getUserMedia\<close> call of \<^verbatim>\<open>requestCameraAccess\<close>, and
  the synchronous throw on a platform without the MediaDevices API. A rejected
  \<^verbatim>\<open>getUserMedia\<close> call of \<^verbatim>\<open>switchCamera\<close> itself is not classified: whatever its
  name, it runs the \<^verbatim>\<open>catch\<close> block of \<^verbatim>\<open>switchCamera\<close>.
\<close>

theorem acquisition_failure_classified:
  fixes s :: state and name :: string
  defines "s' \<equiv> requestCameraAccess_catch name s"
  shows "(name = ''NotAllowedError'' \<longrightarrow>
            permission s' = Denied \<and>
            error s' = ''Camera access denied. Please allow camera permission and try again.'') \<and>
     (name = ''NotFoundError'' \<longrightarrow> error s' = ''No camera found on this device.'') \<and>
     (name = ''NotReadableError'' \<longrightarrow>
            error s' = ''Camera is already in use by another application.'') \<and>
     (name = ''OverconstrainedError'' \<longrightarrow> error s' = ''Camera constraints cannot be satisfied.'') \<and>
     (name \<notin> {''NotAllowedError'', ''NotFoundError'', ''NotReadableError'', ''OverconstrainedError''} \<longrightarrow>
            error s' = ''Failed to access camera. Please try again.'') \<and>
     (name \<noteq> ''NotAllowedError'' \<longrightarrow> permission s' = permission s) \<and>
     isLoading s' = False \<and>
     renderCameraView s' = ErrorView \<and> renderCameraView (commit s') = ErrorView \<and>
     (take_task k (pending t) = Some (GetUserMedia RequestAccess fm, rest) \<longrightarrow>
        handle (MediaRejected k name) t = requestCameraAccess_catch name (t\<lparr>pending := rest\<rparr>)) \<and>
     (\<not> mediaSupported t \<longrightarrow>
        requestCameraAccess fm t =
          requestCameraAccess_catch ''Error'' (t\<lparr>isLoading := True, error := [], isCameraReady := False\<rparr>)) \<and>
     (take_task k (pending t) = Some (GetUserMedia (SwitchTry prior) fm, rest) \<longrightarrow>
        handle (MediaRejected k name) t = switchCamera_catch prior (t\<lparr>pending := rest\<rparr>))"
proof -
  have sw: "take_task k (pending t) = Some (GetUserMedia (SwitchTry prior) fm, rest) \<longrightarrow>
        handle (MediaRejected k name) t = switchCamera_catch prior (t\<lparr>pending := rest\<rparr>)"
    by (simp add: handle_def getUserMedia_rejected_def)
  have ev: "take_task k (pending t) = Some (GetUserMedia RequestAccess fm, rest) \<longrightarrow>
        handle (MediaRejected k name) t = requestCameraAccess_catch name (t\<lparr>pending := rest\<rparr>)"
    by (simp add: handle_def getUserMedia_rejected_def)
  have un: "\<not> mediaSupported t \<longrightarrow>
        requestCameraAccess fm t =
          requestCameraAccess_catch ''Error'' (t\<lparr>isLoading := True, error := [], isCameraReady := False\<rparr>)"
    by (simp add: requestCameraAccess_def startCamera_def)
  show ?thesis
    unfolding renderCameraView_commit
    apply (intro conjI)
              apply (simp_all add: s'_def catch_error catch_permission catch_isLoading catch_view)
      apply (rule ev)
     apply (rule un)
    apply (rule sw)
    done
qed

theorem acquisition_failure_classified_witness:
  "take_task 0 (pending ((initial_state True None)\<lparr>isOpen := True, isLoading := True,
       pending := [GetUserMedia RequestAccess User]\<rparr>))
     = Some (GetUserMedia RequestAccess User, []) \<and>
   handle (MediaRejected 0 ''NotAllowedError'')
     ((initial_state True None)\<lparr>isOpen := True, isLoading := True,
         pending := [GetUserMedia RequestAccess User]\<rparr>)
   = (initial_state True None)\<lparr>isOpen := True, isLoading := False, pending := [],
        error := ''Camera access denied. Please allow camera permission and try again.'',
        permission := Denied\<rparr> \<and>
   error (requestCameraAccess_catch ''NotFoundError'' (initial_state True None))
     = ''No camera found on this device.'' \<and>
   error (requestCameraAccess_catch ''NotReadableError'' (initial_state True None))
     = ''Camera is already in use by another application.'' \<and>
   error (requestCameraAccess_catch ''OverconstrainedError'' (initial_state True None))
     = ''Camera constraints cannot be satisfied.'' \<and>
   error (requestCameraAccess_catch ''TypeError'' (initial_state True None))
     = ''Failed to access camera. Please try again.'' \<and>
   \<not> mediaSupported (initial_state False None) \<and>
   error (requestCameraAccess User (initial_state False None))
     = ''Failed to access camera. Please try again.''"
  using
    acquisition_failure_classified
      [where name = "''NotAllowedError''" and k = 0 and fm = User and rest = "[]"
         and t = "(initial_state True None)\<lparr>isOpen := True, isLoading := True,
                pending := [GetUserMedia RequestAccess User]\<rparr>"]
    acquisition_failure_classified [where name = "''NotFoundError''" and s = "initial_state True None"]
    acquisition_failure_classified [where name = "''NotReadableError''" and s = "initial_state True None"]
    acquisition_failure_classified [where name = "''OverconstrainedError''" and s = "initial_state True None"]
    acquisition_failure_classified [where name = "''TypeError''" and s = "initial_state True None"]
    acquisition_failure_classified [where t = "initial_state False None" and fm = User]
  by (simp add: initial_state_def take_task_def requestCameraAccess_catch_def)

section \<open>Closing and confirming\<close>

lemma handleClose_fields:
  "isOpen (handleClose s) = False \<and> capturedImage (handleClose s) = None \<and>
   error (handleClose s) = [] \<and> isLoading (handleClose s) = False \<and>
   isCameraReady (handleClose s) = False \<and> readyCalledRef (handleClose s) = False \<and>
   globalStream (handleClose s) = None \<and>
   alive (handleClose s) = alive s - set_option (globalStream s) \<and>
   imageRef (handleClose s) = imageRef s \<and> facingMode (handleClose s) = facingMode s \<and>
   pending (handleClose s) = pending s"
  by (cases "globalStream s")
    (simp_all add: handleClose_def stopCamera_def stopExistingCameraStreams_def)

lemma confirmPhoto_cases:
  "confirmPhoto s = s \<or> (\<exists>i. confirmPhoto s = handleClose (s\<lparr>imageRef := i\<rparr>))"
  by (cases "capturedImage s"; cases "imageRef s") (auto simp: confirmPhoto_def)

text \<open>
  C6, as stated, at a state with a captured frame but an unbound image reference:
  the guard \<^verbatim>\<open>capturedImage && imageRef?.current\<close> fails, nothing is written, the modal
  stays open, the stream stays alive and the frame is kept.
\<close>

theorem confirm_unbound_counterexample:
  "truthy (capturedImage ((initial_state True None)\<lparr>isOpen := True,
       capturedImage := Some ''data:image/jpeg;base64,QUJD'', isCameraReady := True,
       readyCalledRef := True, globalStream := Some 0, alive := {0}, nextStream := 1\<rparr>)) \<and>
   isOpen (confirmPhoto ((initial_state True None)\<lparr>isOpen := True,
       capturedImage := Some ''data:image/jpeg;base64,QUJD'', isCameraReady := True,
       readyCalledRef := True, globalStream := Some 0, alive := {0}, nextStream := 1\<rparr>)) \<and>
   alive (confirmPhoto ((initial_state True None)\<lparr>isOpen := True,
       capturedImage := Some ''data:image/jpeg;base64,QUJD'', isCameraReady := True,
       readyCalledRef := True, globalStream := Some 0, alive := {0}, nextStream := 1\<rparr>)) = {0} \<and>
   capturedImage (confirmPhoto ((initial_state True None)\<lparr>isOpen := True,
       capturedImage := Some ''data:image/jpeg;base64,QUJD'', isCameraReady := True,
       readyCalledRef := True, globalStream := Some 0, alive := {0}, nextStream := 1\<rparr>))
     = Some ''data:image/jpeg;base64,QUJD''"
  by (simp add: initial_state_def confirmPhoto_def truthy_def)

text \<open>
  C6, amended. When a captured frame exists, the caller's image reference is bound and
  the user confirms, the \<^verbatim>\<open>src\<close> of that image becomes exactly the frame's data URL and
  the widget is closed: nothing is rendered, the global stream is released, and the
  captured frame and the error are cleared.
\<close>

theorem confirm_hands_over:
  assumes "capturedImage s = Some url" and "url \<noteq> []" and "imageRef s = Some img"
  shows "imageRef (confirmPhoto s) = Some (img\<lparr>src := url\<rparr>) \<and>
     isOpen (confirmPhoto s) = False \<and> rendered (confirmPhoto s) = [] \<and>
     globalStream (confirmPhoto s) = None \<and>
     alive (confirmPhoto s) = alive s - set_option (globalStream s) \<and>
     capturedImage (confirmPhoto s) = None \<and> error (confirmPhoto s) = [] \<and>
     isCameraReady (confirmPhoto s) = False \<and> isLoading (confirmPhoto s) = False"
proof -
  have "confirmPhoto s = handleClose (s\<lparr>imageRef := Some (img\<lparr>src := url\<rparr>)\<rparr>)"
    using assms by (simp add: confirmPhoto_def)
  then show ?thesis
    using handleClose_fields [of "s\<lparr>imageRef := Some (img\<lparr>src := url\<rparr>)\<rparr>"]
    by (simp add: rendered_def)
qed

theorem confirm_hands_over_witness:
  "capturedImage ((initial_state True (Some \<lparr>src = []\<rparr>))\<lparr>isOpen := True,
       capturedImage := Some ''data:image/jpeg;base64,QUJD'', isCameraReady := True,
       readyCalledRef := True, globalStream := Some 0, alive := {0}, nextStream := 1\<rparr>)
     = Some ''data:image/jpeg;base64,QUJD'' \<and>
   confirmPhoto ((initial_state True (Some \<lparr>src = []\<rparr>))\<lparr>isOpen := True,
       capturedImage := Some ''data:image/jpeg;base64,QUJD'', isCameraReady := True,
       readyCalledRef := True, globalStream := Some 0, alive := {0}, nextStream := 1\<rparr>)
   = (initial_state True (Some \<lparr>src = ''data:image/jpeg;base64,QUJD''\<rparr>))\<lparr>nextStream := 1\<rparr>"
  using confirm_hands_over
    [of "(initial_state True (Some \<lparr>src = []\<rparr>))\<lparr>isOpen := True,
           capturedImage := Some ''data:image/jpeg;base64,QUJD'', isCameraReady := True,
           readyCalledRef := True, globalStream := Some 0, alive := {0}, nextStream := 1\<rparr>"
        "''data:image/jpeg;base64,QUJD''" "\<lparr>src = []\<rparr>"]
  by (simp add: initial_state_def confirmPhoto_def handleClose_def stopCamera_def
        stopExistingCameraStreams_def)

section \<open>Switching the facing mode\<close>

lemma requestCameraAccess_supported:
  "mediaSupported s \<Longrightarrow>
   requestCameraAccess fm s =
     (stopExistingCameraStreams (s\<lparr>isLoading := True, error := [], isCameraReady := False\<rparr>))
       \<lparr>pending := pending s @ [GetUserMedia RequestAccess fm]\<rparr>"
  by (simp add: requestCameraAccess_def startCamera_def stopExistingCameraStreams_def Let_def)

lemma requestCameraAccess_facingMode: "facingMode (requestCameraAccess fm s) = facingMode s"
  by (cases "mediaSupported s")
    (simp_all add: requestCameraAccess_def startCamera_def stopExistingCameraStreams_def
      requestCameraAccess_catch_def Let_def)

lemma switchCamera_supported:
  "mediaSupported s \<Longrightarrow> globalStream s = Some h \<Longrightarrow>
   switchCamera s =
     (stopExistingCameraStreams
        (s\<lparr>facingMode := toggle (facingMode s), isLoading := True, isCameraReady := False\<rparr>))
       \<lparr>pending := pending s @ [GetUserMedia (SwitchTry (facingMode s)) (toggle (facingMode s))]\<rparr>"
  by (simp add: switchCamera_def startCamera_def stopExistingCameraStreams_def Let_def)

lemma requestCameraAccess_error:
  "error (requestCameraAccess fm s) =
     (if mediaSupported s then [] else ''Failed to access camera. Please try again.'')"
  by (simp add: requestCameraAccess_def startCamera_def stopExistingCameraStreams_def
      catch_error Let_def)

lemma switchCamera_catch_error:
  "error (switchCamera_catch prior s) =
     (if mediaSupported s then [] else ''Failed to access camera. Please try again.'')"
  by (simp add: switchCamera_catch_def requestCameraAccess_error switchCamera_revert_def)

lemma switchCamera_error:
  "error (switchCamera s) = error s \<or>
   error (switchCamera s) = ''Failed to access camera. Please try again.''"
proof (cases "globalStream s")
  case None
  then show ?thesis by (simp add: switchCamera_def Let_def)
next
  case (Some h)
  show ?thesis
  proof (cases "mediaSupported s")
    case True
    then show ?thesis
      using Some by (simp add: switchCamera_supported stopExistingCameraStreams_def)
  next
    case False
    then have "switchCamera s = switchCamera_catch (facingMode s)
        (s\<lparr>facingMode := toggle (facingMode s), isLoading := True, isCameraReady := False\<rparr>)"
      using Some by (simp add: switchCamera_def startCamera_def Let_def)
    then show ?thesis
      using False by (simp add: switchCamera_catch_error)
  qed
qed

lemma handleOpen_error:
  "error (handleOpen s) = [] \<or> error (handleOpen s) = ''Failed to access camera. Please try again.''"
  by (simp add: handleOpen_def requestCameraAccess_error Let_def)

lemma capturePhoto_error:
  "error (capturePhoto p s) = error s \<or>
   error (capturePhoto p s) = ''Canvas context not supported'' \<or>
   error (capturePhoto p s) = ''Video not ready. Please wait a moment and try again.'' \<or>
   error (capturePhoto p s) = ''Failed to capture photo. Please try again.''"
proof (cases "videoRef s")
  case None
  then show ?thesis by (simp add: capturePhoto_unbound)
next
  case (Some v)
  note v = this
  show ?thesis
  proof (cases "canvasRef s")
    case None
    then show ?thesis by (simp add: capturePhoto_unbound)
  next
    case (Some c)
    show ?thesis
      unfolding capturePhoto_bound [OF v Some] by (simp add: Let_def)
  qed
qed

lemma startCamera_resume_error: "error (startCamera_resume orig s) = error s"
  by (cases "videoRef s"; cases orig)
    (simp_all add: startCamera_resume_def startCamera_returned_def Let_def)

lemma getUserMedia_fulfilled_error: "error (getUserMedia_fulfilled k s) = error s"
proof (cases "take_task k (pending s)")
  case None
  then show ?thesis by (simp add: getUserMedia_fulfilled_def)
next
  case (Some a)
  obtain t rest where a: "a = (t, rest)" by (cases a)
  show ?thesis
    using Some a
    by (cases t) (simp_all add: getUserMedia_fulfilled_def startCamera_resume_error)
qed

lemma play_settled_error: "error (play_settled k s) = error s"
proof (cases "take_task k (pending s)")
  case None
  then show ?thesis by (simp add: play_settled_def)
next
  case (Some a)
  obtain t rest where a: "a = (t, rest)" by (cases a)
  show ?thesis
  proof (cases t)
    case (GetUserMedia orig fm)
    then show ?thesis using Some a by (simp add: play_settled_def)
  next
    case (Play orig)
    then show ?thesis
      using Some a by (cases orig) (simp_all add: play_settled_def startCamera_returned_def)
  qed
qed

lemma getUserMedia_rejected_error:
  "error s \<noteq> ''Failed to switch camera. Using default camera.'' \<Longrightarrow>
   error (getUserMedia_rejected k name s) \<noteq> ''Failed to switch camera. Using default camera.''"
proof (cases "take_task k (pending s)")
  case None
  then show "error s \<noteq> ''Failed to switch camera. Using default camera.'' \<Longrightarrow> ?thesis"
    by (simp add: getUserMedia_rejected_def)
next
  case (Some a)
  assume old: "error s \<noteq> ''Failed to switch camera. Using default camera.''"
  obtain t rest where a: "a = (t, rest)" by (cases a)
  show ?thesis
  proof (cases t)
    case (Play orig)
    then show ?thesis using Some a old by (simp add: getUserMedia_rejected_def)
  next
    case (GetUserMedia orig fm)
    show ?thesis
    proof (cases orig)
      case RequestAccess
      then show ?thesis
        using Some a GetUserMedia by (simp add: getUserMedia_rejected_def catch_error)
    next
      case (SwitchTry prior)
      then show ?thesis
        using Some a GetUserMedia by (simp add: getUserMedia_rejected_def switchCamera_catch_error)
    qed
  qed
qed

lemma handle_keeps_switch_message_out:
  assumes "error s \<noteq> ''Failed to switch camera. Using default camera.''"
  shows "error (handle e s) \<noteq> ''Failed to switch camera. Using default camera.''"
proof (cases e)
  case TriggerClick
  then show ?thesis using assms handleOpen_error [of s] by (auto simp: handle_def)
next
  case CloseClick
  then show ?thesis using assms handleClose_fields [of s] by (simp add: handle_def)
next
  case RetryClick
  then show ?thesis using assms by (simp add: handle_def requestCameraAccess_error)
next
  case SwitchCameraClick
  then show ?thesis using assms switchCamera_error [of s] by (auto simp: handle_def)
next
  case (CaptureClick p)
  then show ?thesis using assms capturePhoto_error [of p s] by (auto simp: handle_def)
next
  case RetakeClick
  then show ?thesis using assms by (simp add: handle_def retakePhoto_def)
next
  case ConfirmClick
  from confirmPhoto_cases [of s] show ?thesis
  proof
    assume "confirmPhoto s = s"
    then show ?thesis using ConfirmClick assms by (simp add: handle_def)
  next
    assume "\<exists>i. confirmPhoto s = handleClose (s\<lparr>imageRef := i\<rparr>)"
    then obtain i where "confirmPhoto s = handleClose (s\<lparr>imageRef := i\<rparr>)" ..
    then show ?thesis
      using ConfirmClick assms handleClose_fields [of "s\<lparr>imageRef := i\<rparr>"]
      by (simp add: handle_def)
  qed
next
  case Unmount
  then show ?thesis
    using assms by (simp add: handle_def unmount_def stopExistingCameraStreams_def)
next
  case (PermissionChange p)
  then show ?thesis using assms by (simp add: handle_def)
next
  case (MediaFulfilled k)
  then show ?thesis using assms by (simp add: handle_def getUserMedia_fulfilled_error)
next
  case (MediaRejected k name)
  then show ?thesis using getUserMedia_rejected_error [OF assms] by (simp add: handle_def)
next
  case (PlaySettled k ok)
  then show ?thesis using assms by (simp add: handle_def play_settled_error)
next
  case VideoPlaying
  then show ?thesis
    using assms by (cases "videoRef s") (simp_all add: handle_def informCameraReady_def)
next
  case VideoCanPlay
  then show ?thesis
    using assms by (cases "videoRef s") (simp_all add: handle_def informCameraReady_def)
qed

lemma error_commit: "error (commit s) = error s"
  by (simp add: commit_def)

lemma run_keeps_switch_message_out:
  "error s \<noteq> ''Failed to switch camera. Using default camera.'' \<Longrightarrow>
   error (run s evs) \<noteq> ''Failed to switch camera. Using default camera.''"
  by (induction evs arbitrary: s)
    (simp_all add: step_def error_commit handle_keeps_switch_message_out)

text \<open>
  No sequence of events leads from the initial state to a state whose error cell holds
  the switch-failure message: the only handler that sets it clears it again before it
  returns.
\<close>

lemma switch_message_never_shown:
  "error (run (initial_state supported img) evs) \<noteq> ''Failed to switch camera. Using default camera.''"
  by (rule run_keeps_switch_message_out) (simp add: initial_state_def)

text \<open>
  The \<^verbatim>\<open>catch\<close> block of \<^verbatim>\<open>switchCamera\<close> does not depend on the message it sets: without
  the \<^verbatim>\<open>setError\<close> call of line 201 it would return the same state.
\<close>

lemma switchCamera_catch_ignores_message:
  "switchCamera_catch prior s = requestCameraAccess prior (s\<lparr>facingMode := prior\<rparr>)"
  by (cases "mediaSupported s")
    (simp_all add: switchCamera_catch_def switchCamera_revert_def requestCameraAccess_def
      startCamera_def stopExistingCameraStreams_def requestCameraAccess_catch_def Let_def)

text \<open>
  C7, at a switch whose acquisition is rejected: the modal is open with the front
  camera bound and ready, the switch button is pressed, and the \<^verbatim>\<open>getUserMedia\<close> call
  for the rear camera is rejected. The facing mode, which the switch had toggled, is
  back at its prior value, and a fallback \<^verbatim>\<open>getUserMedia\<close> call under that prior mode is
  in flight. But the error cell is empty and the live view is on screen: the message
  \<^verbatim>\<open>Failed to switch camera. Using default camera.\<close>, set at line 201, has been
  overwritten by the \<^verbatim>\<open>setError('')\<close> with which the fallback's
  \<^verbatim>\<open>requestCameraAccess\<close> starts (line 126), within the same \<^verbatim>\<open>catch\<close> block.
\<close>

theorem switch_message_lost:
  "facingMode (run (initial_state True None)
      [TriggerClick, MediaFulfilled 0, VideoCanPlay, SwitchCameraClick]) = Environment \<and>
   pending (run (initial_state True None)
      [TriggerClick, MediaFulfilled 0, VideoCanPlay, SwitchCameraClick])
     = [Play RequestAccess, GetUserMedia (SwitchTry User) Environment] \<and>
   facingMode (run (initial_state True None)
      [TriggerClick, MediaFulfilled 0, VideoCanPlay, SwitchCameraClick,
       MediaRejected 1 ''NotReadableError'']) = User \<and>
   pending (run (initial_state True None)
      [TriggerClick, MediaFulfilled 0, VideoCanPlay, SwitchCameraClick,
       MediaRejected 1 ''NotReadableError''])
     = [Play RequestAccess, GetUserMedia RequestAccess User] \<and>
   error (run (initial_state True None)
      [TriggerClick, MediaFulfilled 0, VideoCanPlay, SwitchCameraClick,
       MediaRejected 1 ''NotReadableError'']) = [] \<and>
   rendered (run (initial_state True None)
      [TriggerClick, MediaFulfilled 0, VideoCanPlay, SwitchCameraClick,
       MediaRejected 1 ''NotReadableError'']) = [LiveView]"
  by (simp add: initial_state_def step_def handle_def commit_def renderCameraView_def
      rendered_def truthy_def handleOpen_def requestCameraAccess_def switchCamera_def
      switchCamera_catch_def switchCamera_revert_def toggle_def
      startCamera_def stopExistingCameraStreams_def getUserMedia_fulfilled_def
      getUserMedia_rejected_def take_task_def startCamera_resume_def startCamera_returned_def
      fresh_video_def fresh_canvas_def informCameraReady_def Let_def)

text \<open>
  What a failed switch leaves behind. When \<^verbatim>\<open>switchCamera\<close> has toggled the facing
  mode and the acquisition under the new mode is rejected, the facing mode is back at
  the value from before the toggle and a new \<^verbatim>\<open>getUserMedia\<close> call constrained by that
  prior mode is in flight; the error cell is empty. On a platform without the
  MediaDevices API the failure is the synchronous throw, the facing mode is likewise
  back, and the error cell holds the generic message of the fallback.
\<close>

lemma switch_failure_effect:
  fixes s :: state and name :: string
  defines "prior \<equiv> facingMode s"
  defines "s1 \<equiv> switchCamera s"
  defines "s2 \<equiv> handle (MediaRejected (length (pending s)) name) s1"
  assumes "globalStream s = Some h"
  shows "(mediaSupported s \<longrightarrow>
        facingMode s1 = toggle prior \<and>
        pending s1 = pending s @ [GetUserMedia (SwitchTry prior) (toggle prior)] \<and>
        facingMode s2 = prior \<and>
        pending s2 = pending s @ [GetUserMedia RequestAccess prior] \<and>
        error s2 = []) \<and>
     (\<not> mediaSupported s \<longrightarrow>
        facingMode s1 = prior \<and> pending s1 = pending s \<and>
        error s1 = ''Failed to access camera. Please try again.'')"
proof (intro conjI impI)
  assume sup: "mediaSupported s"
  note sw = switchCamera_supported [OF sup assms(4)]
  show "facingMode s1 = toggle prior"
    by (simp add: s1_def sw prior_def stopExistingCameraStreams_def)
  show p1: "pending s1 = pending s @ [GetUserMedia (SwitchTry prior) (toggle prior)]"
    by (simp add: s1_def sw prior_def)
  have eq: "s2 = switchCamera_catch prior (s1\<lparr>pending := pending s\<rparr>)"
    unfolding s2_def
    by (simp add: handle_def getUserMedia_rejected_def p1 take_task_last)
  have m: "mediaSupported (s1\<lparr>pending := pending s\<rparr>)"
    using sup by (simp add: s1_def sw stopExistingCameraStreams_def)
  show "facingMode s2 = prior"
    by (simp add: eq switchCamera_catch_def requestCameraAccess_facingMode switchCamera_revert_def)
  show "pending s2 = pending s @ [GetUserMedia RequestAccess prior]"
    using m
    by (simp add: eq switchCamera_catch_def requestCameraAccess_supported switchCamera_revert_def)
  show "error s2 = []"
    using m by (simp add: eq switchCamera_catch_error)
next
  assume uns: "\<not> mediaSupported s"
  have eq: "s1 = switchCamera_catch prior
               (s\<lparr>facingMode := toggle prior, isLoading := True, isCameraReady := False\<rparr>)"
    using uns assms(4)
    by (simp add: s1_def switchCamera_def startCamera_def prior_def Let_def)
  show "facingMode s1 = prior"
    by (simp add: eq switchCamera_catch_def requestCameraAccess_facingMode switchCamera_revert_def)
  show "pending s1 = pending s"
    using uns
    by (simp add: eq switchCamera_catch_def switchCamera_revert_def requestCameraAccess_def
        startCamera_def requestCameraAccess_catch_def Let_def)
  show "error s1 = ''Failed to access camera. Please try again.''"
    using uns by (simp add: eq switchCamera_catch_error)
qed

section \<open>Opening and the permission gate\<close>

text \<open>
  C8, as stated, at permission \<^verbatim>\<open>denied\<close> on a platform that supports the camera:
  \<^verbatim>\<open>handleOpen\<close> opens the modal and starts no \<^verbatim>\<open>getUserMedia\<close> call, whereas at
  \<^verbatim>\<open>prompt\<close> it starts one.
\<close>

theorem open_denied_counterexample:
  "handleOpen ((initial_state True None)\<lparr>permission := Denied\<rparr>)
     = (initial_state True None)\<lparr>permission := Denied, isOpen := True\<rparr> \<and>
   pending (handleOpen ((initial_state True None)\<lparr>permission := Denied\<rparr>)) = [] \<and>
   pending (handleOpen (initial_state True None)) = [GetUserMedia RequestAccess User]"
  by (simp add: initial_state_def handleOpen_def requestCameraAccess_def startCamera_def
      stopExistingCameraStreams_def)

text \<open>
  C8, amended. \<^verbatim>\<open>handleOpen\<close> consults the permission: with \<^verbatim>\<open>granted\<close> or \<^verbatim>\<open>prompt\<close> it
  attempts the acquisition, with \<^verbatim>\<open>denied\<close> it only opens the modal and clears the
  captured frame and the error. \<^verbatim>\<open>requestCameraAccess\<close> itself, which also serves the
  retry button and the fallback of a failed switch, does not read the permission: it
  starts a \<^verbatim>\<open>getUserMedia\<close> call whatever the permission is, and a failure is classified
  only when that call has been rejected.
\<close>

theorem open_attempts_unless_denied:
  assumes "mediaSupported s"
  shows "(permission s \<noteq> Denied \<longrightarrow>
        handleOpen s = requestCameraAccess (facingMode s)
                         (s\<lparr>isOpen := True, capturedImage := None, error := []\<rparr>) \<and>
        pending (handleOpen s) = pending s @ [GetUserMedia RequestAccess (facingMode s)]) \<and>
     (permission s = Denied \<longrightarrow>
        handleOpen s = s\<lparr>isOpen := True, capturedImage := None, error := []\<rparr> \<and>
        pending (handleOpen s) = pending s) \<and>
     pending (requestCameraAccess fm (s\<lparr>permission := p\<rparr>))
        = pending s @ [GetUserMedia RequestAccess fm] \<and>
     error (requestCameraAccess fm (s\<lparr>permission := p\<rparr>)) = []"
proof -
  have a: "permission s \<noteq> Denied \<Longrightarrow>
      handleOpen s = requestCameraAccess (facingMode s)
                       (s\<lparr>isOpen := True, capturedImage := None, error := []\<rparr>)"
    by (cases "permission s") (simp_all add: handleOpen_def)
  have b: "permission s = Denied \<Longrightarrow>
      handleOpen s = s\<lparr>isOpen := True, capturedImage := None, error := []\<rparr>"
    by (simp add: handleOpen_def)
  have c: "pending (requestCameraAccess fm' t) = pending t @ [GetUserMedia RequestAccess fm']
      \<and> error (requestCameraAccess fm' t) = []"
    if "mediaSupported t" for fm' t
    using that by (simp add: requestCameraAccess_supported stopExistingCameraStreams_def)
  show ?thesis
    using a b c [of "s\<lparr>isOpen := True, capturedImage := None, error := []\<rparr>" "facingMode s"]
      c [of "s\<lparr>permission := p\<rparr>" fm] assms
    by simp
qed

theorem open_attempts_unless_denied_witness:
  "mediaSupported (initial_state True None) \<and>
   pending (handleOpen ((initial_state True None)\<lparr>permission := Granted\<rparr>))
     = [GetUserMedia RequestAccess User] \<and>
   pending (handleOpen ((initial_state True None)\<lparr>permission := Prompt\<rparr>))
     = [GetUserMedia RequestAccess User] \<and>
   pending (handleOpen ((initial_state True None)\<lparr>permission := Denied\<rparr>)) = [] \<and>
   pending (requestCameraAccess User ((initial_state True None)\<lparr>permission := Denied\<rparr>))
     = [GetUserMedia RequestAccess User]"
  using
    open_attempts_unless_denied [of "(initial_state True None)\<lparr>permission := Granted\<rparr>" User Granted]
    open_attempts_unless_denied [of "(initial_state True None)\<lparr>permission := Prompt\<rparr>" User Prompt]
    open_attempts_unless_denied [of "(initial_state True None)\<lparr>permission := Denied\<rparr>" User Denied]
  by (simp add: initial_state_def handleOpen_def requestCameraAccess_supported
        stopExistingCameraStreams_def)

section \<open>Overlapping acquisitions\<close>

text \<open>
  C1, at the sequence open, close, open in which both \<^verbatim>\<open>getUserMedia\<close> calls are still
  in flight when the second open happens. Each \<^verbatim>\<open>startCamera\<close> released the global
  stream before its await, when there was none; each continuation then stores its
  stream in \<^verbatim>\<open>globalStream\<close>, so the second overwrites the first without stopping it:
  two streams are alive. A following close stops only the one in the slot, and one
  stream stays alive. Likewise a stream that arrives after a close or after the
  unmount is stored and stays alive, with the modal closed or the component gone.
\<close>

theorem overlapping_acquisitions_leak:
  "alive (run (initial_state True None)
            [TriggerClick, CloseClick, TriggerClick, MediaFulfilled 0, MediaFulfilled 0]) = {0, 1} \<and>
   alive (run (initial_state True None)
            [TriggerClick, CloseClick, TriggerClick, MediaFulfilled 0, MediaFulfilled 0, CloseClick])
     = {0} \<and>
   alive (run (initial_state True None) [TriggerClick, CloseClick, MediaFulfilled 0]) = {0} \<and>
   isOpen (run (initial_state True None) [TriggerClick, CloseClick, MediaFulfilled 0]) = False \<and>
   alive (run (initial_state True None) [TriggerClick, Unmount, MediaFulfilled 0]) = {0}"
  by (auto simp add: initial_state_def step_def handle_def commit_def renderCameraView_def
      rendered_def truthy_def handleOpen_def handleClose_def requestCameraAccess_def
      startCamera_def stopCamera_def stopExistingCameraStreams_def getUserMedia_fulfilled_def
      take_task_def startCamera_resume_def startCamera_returned_def unmount_def fresh_video_def
      fresh_canvas_def Let_def)

section \<open>The readiness latch\<close>

lemma keeps_latch_refl: "keeps_latch s s"
  by (simp add: keeps_latch_def)

lemma keeps_latch_requestCameraAccess_catch: "keeps_latch s (requestCameraAccess_catch name s)"
  by (simp add: keeps_latch_def requestCameraAccess_catch_def Let_def)

lemma keeps_latch_requestCameraAccess: "keeps_latch s (requestCameraAccess fm s)"
  by (cases "mediaSupported s")
    (simp_all add: keeps_latch_def requestCameraAccess_def startCamera_def
      stopExistingCameraStreams_def requestCameraAccess_catch_def Let_def)

lemma keeps_latch_switchCamera_catch: "keeps_latch s (switchCamera_catch prior s)"
  using keeps_latch_requestCameraAccess [of "switchCamera_revert prior s" prior]
  by (simp add: keeps_latch_def switchCamera_catch_def switchCamera_revert_def)

lemma keeps_latch_switchCamera: "keeps_latch s (switchCamera s)"
proof (cases "globalStream s")
  case None
  then show ?thesis by (simp add: keeps_latch_def switchCamera_def Let_def)
next
  case (Some h)
  show ?thesis
  proof (cases "mediaSupported s")
    case True
    then show ?thesis
      using Some by (simp add: keeps_latch_def switchCamera_supported stopExistingCameraStreams_def)
  next
    case False
    then have "switchCamera s = switchCamera_catch (facingMode s)
        (s\<lparr>facingMode := toggle (facingMode s), isLoading := True, isCameraReady := False\<rparr>)"
      using Some by (simp add: switchCamera_def startCamera_def Let_def)
    then show ?thesis
      using keeps_latch_switchCamera_catch
        [of "s\<lparr>facingMode := toggle (facingMode s), isLoading := True, isCameraReady := False\<rparr>"
            "facingMode s"]
      by (simp add: keeps_latch_def)
  qed
qed

lemma keeps_latch_handleOpen: "keeps_latch s (handleOpen s)"
  using keeps_latch_requestCameraAccess
    [of "s\<lparr>isOpen := True, capturedImage := None, error := []\<rparr>" "facingMode s"]
  by (simp add: keeps_latch_def handleOpen_def Let_def)

lemma capturePhoto_cases:
  "capturePhoto p s = s \<or> (\<exists>m. capturePhoto p s = s\<lparr>error := m\<rparr>) \<or>
   (\<exists>c u. capturePhoto p s = s\<lparr>canvasRef := Some c, capturedImage := Some u\<rparr>) \<or>
   (\<exists>c m. capturePhoto p s = s\<lparr>canvasRef := Some c, error := m\<rparr>)"
proof (cases "videoRef s")
  case None
  then show ?thesis by (simp add: capturePhoto_unbound)
next
  case (Some v)
  note v = this
  show ?thesis
  proof (cases "canvasRef s")
    case None
    then show ?thesis by (simp add: capturePhoto_unbound)
  next
    case (Some c)
    show ?thesis
      unfolding capturePhoto_bound [OF v Some] Let_def
      by (simp only: split: if_split) blast
  qed
qed

lemma keeps_latch_capturePhoto: "keeps_latch s (capturePhoto p s)"
  using capturePhoto_cases [of p s] by (auto simp: keeps_latch_def)

lemma keeps_latch_startCamera_returned: "keeps_latch s (startCamera_returned orig s)"
  by (cases orig) (simp_all add: keeps_latch_def startCamera_returned_def)

lemma keeps_latch_pending: "keeps_latch (s\<lparr>pending := ts\<rparr>) s' \<Longrightarrow> keeps_latch s s'"
  by (simp add: keeps_latch_def)

lemma keeps_latch_play_settled: "keeps_latch s (play_settled k s)"
proof (cases "take_task k (pending s)")
  case None
  then show ?thesis by (simp add: play_settled_def keeps_latch_refl)
next
  case (Some a)
  obtain t rest where a: "a = (t, rest)" by (cases a)
  show ?thesis
  proof (cases t)
    case (GetUserMedia orig fm)
    then show ?thesis using Some a by (simp add: play_settled_def keeps_latch_refl)
  next
    case (Play orig)
    then show ?thesis
      using Some a keeps_latch_pending [OF keeps_latch_startCamera_returned]
      by (simp add: play_settled_def)
  qed
qed

lemma keeps_latch_getUserMedia_rejected: "keeps_latch s (getUserMedia_rejected k name s)"
proof (cases "take_task k (pending s)")
  case None
  then show ?thesis by (simp add: getUserMedia_rejected_def keeps_latch_refl)
next
  case (Some a)
  obtain t rest where a: "a = (t, rest)" by (cases a)
  show ?thesis
  proof (cases t)
    case (Play orig)
    then show ?thesis using Some a by (simp add: getUserMedia_rejected_def keeps_latch_refl)
  next
    case (GetUserMedia orig fm)
    show ?thesis
    proof (cases orig)
      case RequestAccess
      then show ?thesis
        using Some a GetUserMedia keeps_latch_pending [OF keeps_latch_requestCameraAccess_catch]
        by (simp add: getUserMedia_rejected_def)
    next
      case (SwitchTry prior)
      then show ?thesis
        using Some a GetUserMedia keeps_latch_pending [OF keeps_latch_switchCamera_catch]
        by (simp add: getUserMedia_rejected_def)
    qed
  qed
qed

lemma handleClose_latch:
  "videoRef (handleClose s) = videoRef s \<and> nextStream (handleClose s) = nextStream s \<and>
   \<not> isOpen (handleClose s) \<and> \<not> isCameraReady (handleClose s)"
  by (simp add: handleClose_def stopCamera_def stopExistingCameraStreams_def)

lemma informCameraReady_latch:
  "videoRef (informCameraReady s) = videoRef s \<and>
   nextStream (informCameraReady s) = nextStream s \<and>
   readyCalledRef (informCameraReady s) \<and>
   (isCameraReady (informCameraReady s) \<and> \<not> isCameraReady s \<longrightarrow> \<not> readyCalledRef s)"
  by (simp add: informCameraReady_def)

lemma startCamera_resume_bound:
  "videoRef s = Some v \<Longrightarrow>
   videoRef (startCamera_resume orig s)
     = Some (v\<lparr>onplaying := True, oncanplay := True, srcObject := Some (nextStream s)\<rparr>) \<and>
   nextStream (startCamera_resume orig s) = Suc (nextStream s) \<and>
   \<not> readyCalledRef (startCamera_resume orig s) \<and> \<not> isCameraReady (startCamera_resume orig s)"
  by (simp add: startCamera_resume_def Let_def)

lemma startCamera_resume_unbound:
  "videoRef s = None \<Longrightarrow>
   videoRef (startCamera_resume orig s) = None \<and>
   nextStream (startCamera_resume orig s) = Suc (nextStream s) \<and>
   readyCalledRef (startCamera_resume orig s) = readyCalledRef s \<and>
   isCameraReady (startCamera_resume orig s) = isCameraReady s"
  by (cases orig) (simp_all add: startCamera_resume_def startCamera_returned_def Let_def)

lemma keeps_latch_quiet: "keeps_latch s s' \<Longrightarrow> latch_quiet s s'"
  by (auto simp: keeps_latch_def latch_quiet_def)

lemma getUserMedia_fulfilled_cases:
  "latch_quiet s (getUserMedia_fulfilled k s) \<or> latch_rebound s (getUserMedia_fulfilled k s)"
proof (cases "take_task k (pending s)")
  case None
  then show ?thesis by (simp add: getUserMedia_fulfilled_def latch_quiet_def)
next
  case (Some a)
  obtain t rest where a: "a = (t, rest)" by (cases a)
  show ?thesis
  proof (cases t)
    case (Play orig)
    then show ?thesis using Some a by (simp add: getUserMedia_fulfilled_def latch_quiet_def)
  next
    case (GetUserMedia orig fm)
    then have eq: "getUserMedia_fulfilled k s = startCamera_resume orig (s\<lparr>pending := rest\<rparr>)"
      using Some a by (simp add: getUserMedia_fulfilled_def)
    show ?thesis
    proof (cases "videoRef s")
      case None
      then show ?thesis
        using startCamera_resume_unbound [of "s\<lparr>pending := rest\<rparr>" orig]
        by (simp add: eq latch_quiet_def)
    next
      case (Some v)
      then show ?thesis
        using startCamera_resume_bound [of "s\<lparr>pending := rest\<rparr>" v orig]
        by (simp add: eq latch_rebound_def)
    qed
  qed
qed

lemma handle_cases:
  "latch_quiet s (handle e s) \<or> latch_closed s (handle e s) \<or> latch_rebound s (handle e s)"
proof (cases e)
  case TriggerClick
  then show ?thesis
    using keeps_latch_quiet [OF keeps_latch_handleOpen [of s]] keeps_latch_quiet [OF keeps_latch_refl [of s]]
    by (simp add: handle_def)
next
  case CloseClick
  then show ?thesis
    using handleClose_latch [of s] keeps_latch_quiet [OF keeps_latch_refl [of s]]
    by (simp add: handle_def latch_closed_def)
next
  case RetryClick
  then show ?thesis
    using keeps_latch_quiet [OF keeps_latch_requestCameraAccess [of s]]
      keeps_latch_quiet [OF keeps_latch_refl [of s]]
    by (simp add: handle_def)
next
  case SwitchCameraClick
  then show ?thesis
    using keeps_latch_quiet [OF keeps_latch_switchCamera [of s]]
      keeps_latch_quiet [OF keeps_latch_refl [of s]]
    by (simp add: handle_def)
next
  case (CaptureClick p)
  then show ?thesis
    using keeps_latch_quiet [OF keeps_latch_capturePhoto [of s p]]
      keeps_latch_quiet [OF keeps_latch_refl [of s]]
    by (simp add: handle_def)
next
  case RetakeClick
  then show ?thesis
    by (simp add: handle_def latch_quiet_def retakePhoto_def)
next
  case ConfirmClick
  from confirmPhoto_cases [of s] show ?thesis
  proof
    assume "confirmPhoto s = s"
    then show ?thesis using ConfirmClick by (simp add: handle_def latch_quiet_def)
  next
    assume "\<exists>i. confirmPhoto s = handleClose (s\<lparr>imageRef := i\<rparr>)"
    then obtain i where "confirmPhoto s = handleClose (s\<lparr>imageRef := i\<rparr>)" ..
    then show ?thesis
      using ConfirmClick handleClose_latch [of "s\<lparr>imageRef := i\<rparr>"]
        keeps_latch_quiet [OF keeps_latch_refl [of s]]
      by (simp add: handle_def latch_closed_def)
  qed
next
  case Unmount
  then show ?thesis
    by (simp add: handle_def latch_quiet_def unmount_def stopExistingCameraStreams_def)
next
  case (PermissionChange p)
  then show ?thesis by (simp add: handle_def latch_quiet_def)
next
  case (MediaFulfilled k)
  then show ?thesis
    using getUserMedia_fulfilled_cases [of s k] by (auto simp: handle_def)
next
  case (MediaRejected k name)
  then show ?thesis
    using keeps_latch_quiet [OF keeps_latch_getUserMedia_rejected [of s k name]]
    by (simp add: handle_def)
next
  case (PlaySettled k ok)
  then show ?thesis
    using keeps_latch_quiet [OF keeps_latch_play_settled [of s k]] by (simp add: handle_def)
next
  case VideoPlaying
  then show ?thesis
    using informCameraReady_latch [of s]
    by (cases "videoRef s") (auto simp: handle_def latch_quiet_def)
next
  case VideoCanPlay
  then show ?thesis
    using informCameraReady_latch [of s]
    by (cases "videoRef s") (auto simp: handle_def latch_quiet_def)
qed

lemma commit_latch:
  "nextStream (commit s) = nextStream s \<and> readyCalledRef (commit s) = readyCalledRef s \<and>
   isCameraReady (commit s) = isCameraReady s \<and>
   (bound_stream (commit s) = Some h \<longrightarrow> bound_stream s = Some h \<and> isOpen s)"
  by (cases "videoRef s") (simp_all add: commit_def bound_stream_def fresh_video_def)

lemma video_inv_commit: "video_inv s \<Longrightarrow> video_inv (commit s)"
  by (cases "videoRef s")
    (auto simp: commit_def video_inv_def fresh_video_def split: option.splits)

lemma video_inv_handle: "video_inv s \<Longrightarrow> video_inv (handle e s)"
  using handle_cases [of s e]
  by (auto simp: video_inv_def latch_quiet_def latch_closed_def latch_rebound_def
      split: option.splits)

lemma video_inv_step: "video_inv s \<Longrightarrow> video_inv (step e s)"
  by (simp add: step_def video_inv_handle video_inv_commit)

lemma video_inv_initial: "video_inv (initial_state supported img)"
  by (simp add: video_inv_def initial_state_def)

lemma bound_below: "video_inv s \<Longrightarrow> bound_stream s = Some h \<Longrightarrow> h < nextStream s"
  by (auto simp: video_inv_def bound_stream_def split: option.splits)

text \<open>A stream becomes the one shown only with the latch open and the flag down.\<close>

lemma newly_bound_latch_open:
  assumes "bound_stream (step e s) = Some h" and "bound_stream s \<noteq> Some h"
  shows "\<not> readyCalledRef (step e s) \<and> \<not> isCameraReady (step e s)"
proof -
  from assms(1) have b: "bound_stream (handle e s) = Some h"
    using commit_latch [of "handle e s" h] by (simp add: step_def)
  from handle_cases [of s e] assms(2) b
  have "latch_rebound s (handle e s)"
    by (auto simp: latch_quiet_def latch_closed_def bound_stream_def)
  then show ?thesis
    using commit_latch [of "handle e s" h] by (auto simp: step_def latch_rebound_def)
qed

lemma may_latch_never_returns:
  assumes "video_inv s" and "\<not> may_latch h s"
  shows "\<not> may_latch h (step e s)"
proof -
  from assms(2) have lt: "h < nextStream s" and cl: "bound_stream s = Some h \<longrightarrow> readyCalledRef s"
    by (auto simp: may_latch_def)
  have c: "nextStream (step e s) = nextStream (handle e s)"
    "readyCalledRef (step e s) = readyCalledRef (handle e s)"
    "bound_stream (step e s) = Some h \<longrightarrow> bound_stream (handle e s) = Some h \<and> isOpen (handle e s)"
    using commit_latch [of "handle e s" h] by (simp_all add: step_def)
  from handle_cases [of s e] show ?thesis
  proof (elim disjE)
    assume "latch_quiet s (handle e s)"
    then show ?thesis
      using lt cl c by (auto simp: may_latch_def latch_quiet_def bound_stream_def)
  next
    assume "latch_closed s (handle e s)"
    then show ?thesis
      using lt c by (auto simp: may_latch_def latch_closed_def)
  next
    assume "latch_rebound s (handle e s)"
    then show ?thesis
      using lt c by (auto simp: may_latch_def latch_rebound_def bound_stream_def)
  qed
qed

lemma latching_uses_up:
  assumes "video_inv s" and "\<not> isCameraReady s" and "isCameraReady (step e s)"
    and "bound_stream s = Some h"
  shows "may_latch h s \<and> \<not> may_latch h (step e s)"
proof -
  have c: "nextStream (step e s) = nextStream (handle e s)"
    "readyCalledRef (step e s) = readyCalledRef (handle e s)"
    "isCameraReady (step e s) = isCameraReady (handle e s)"
    using commit_latch [of "handle e s" h] by (simp_all add: step_def)
  from handle_cases [of s e] assms(2,3) c(3)
  have q: "latch_quiet s (handle e s)"
    by (auto simp: latch_closed_def latch_rebound_def)
  then have "\<not> readyCalledRef s" and "readyCalledRef (handle e s)"
    and "nextStream s \<le> nextStream (handle e s)"
    using assms(2,3) c(3) by (auto simp: latch_quiet_def)
  then show ?thesis
    using assms(4) bound_below [OF assms(1,4)] c by (auto simp: may_latch_def)
qed

lemma latchings_bounded:
  "video_inv s \<Longrightarrow> latchings h s evs \<le> (if may_latch h s then 1 else 0)"
proof (induction evs arbitrary: s)
  case Nil
  then show ?case by simp
next
  case (Cons e evs)
  have inv': "video_inv (step e s)" by (rule video_inv_step [OF Cons.prems])
  note ih = Cons.IH [OF inv']
  show ?case
  proof (cases "\<not> isCameraReady s \<and> isCameraReady (step e s) \<and> bound_stream s = Some h")
    case True
    then have "may_latch h s \<and> \<not> may_latch h (step e s)"
      using latching_uses_up [OF Cons.prems] by blast
    then show ?thesis using ih True by simp
  next
    case False
    show ?thesis
    proof (cases "may_latch h s")
      case True
      then show ?thesis using ih False by (auto split: if_splits)
    next
      case no: False
      then have "\<not> may_latch h (step e s)" by (rule may_latch_never_returns [OF Cons.prems])
      then show ?thesis using ih False no by auto
    qed
  qed
qed

lemma flag_rises_only_by_signal:
  assumes "video_inv s" and "\<not> isCameraReady s" and "isCameraReady (step e s)"
  shows "(e = VideoPlaying \<or> e = VideoCanPlay) \<and> (\<exists>h. bound_stream s = Some h)"
proof -
  have c: "isCameraReady (step e s) = isCameraReady (handle e s)"
    using commit_latch [of "handle e s"] by (simp add: step_def)
  from handle_cases [of s e] assms(2,3) c
  have q: "latch_quiet s (handle e s)"
    by (auto simp: latch_closed_def latch_rebound_def)
  then obtain v where v: "videoRef s = Some v" "onplaying v \<or> oncanplay v"
    using assms(2,3) c by (auto simp: latch_quiet_def)
  then have b: "\<exists>h. bound_stream s = Some h"
    using assms(1) by (auto simp: video_inv_def bound_stream_def split: option.splits)
  have "e = VideoPlaying \<or> e = VideoCanPlay"
  proof (rule ccontr)
    assume n: "\<not> (e = VideoPlaying \<or> e = VideoCanPlay)"
    have "isCameraReady (handle e s) \<longrightarrow> isCameraReady s"
    proof (cases e)
      case TriggerClick
      then show ?thesis using keeps_latch_handleOpen [of s] by (simp add: handle_def keeps_latch_def)
    next
      case CloseClick
      then show ?thesis using handleClose_latch [of s] by (simp add: handle_def)
    next
      case RetryClick
      then show ?thesis
        using keeps_latch_requestCameraAccess [of s] by (simp add: handle_def keeps_latch_def)
    next
      case SwitchCameraClick
      then show ?thesis using keeps_latch_switchCamera [of s] by (simp add: handle_def keeps_latch_def)
    next
      case (CaptureClick p)
      then show ?thesis using keeps_latch_capturePhoto [of s p] by (simp add: handle_def keeps_latch_def)
    next
      case RetakeClick
      then show ?thesis by (simp add: handle_def retakePhoto_def)
    next
      case ConfirmClick
      then show ?thesis
        using confirmPhoto_cases [of s] handleClose_latch by (auto simp: handle_def)
    next
      case Unmount
      then show ?thesis by (simp add: handle_def unmount_def stopExistingCameraStreams_def)
    next
      case (PermissionChange p)
      then show ?thesis by (simp add: handle_def)
    next
      case (MediaFulfilled k)
      then show ?thesis
        using getUserMedia_fulfilled_cases [of s k] q assms(2,3) c
        by (cases "take_task k (pending s)")
          (auto simp: handle_def getUserMedia_fulfilled_def startCamera_resume_def
            startCamera_returned_def Let_def split: task.splits option.splits origin.splits)
    next
      case (MediaRejected k name)
      then show ?thesis
        using keeps_latch_getUserMedia_rejected [of s k name] by (simp add: handle_def keeps_latch_def)
    next
      case (PlaySettled k ok)
      then show ?thesis using keeps_latch_play_settled [of s k] by (simp add: handle_def keeps_latch_def)
    next
      case VideoPlaying
      then show ?thesis using n by simp
    next
      case VideoCanPlay
      then show ?thesis using n by simp
    qed
    with assms(2,3) c show False by simp
  qed
  with b show ?thesis by simp
qed

lemma video_inv_run: "video_inv s \<Longrightarrow> video_inv (run s evs)"
  by (induction evs arbitrary: s) (simp_all add: video_inv_step)

text \<open>
  C2, as stated, at open, close, open with both \<^verbatim>\<open>getUserMedia\<close> calls in flight: the
  first stream is bound and signals readiness, a frame is captured, and the second
  stream arrives while the preview is on screen. \<^verbatim>\<open>videoRef.current\<close> is \<^verbatim>\<open>null\<close> then,
  the block that resets the latch is skipped, and the new stream sits in the global
  slot with latch and readiness flag still true.
\<close>

theorem unbound_arrival_counterexample:
  "globalStream (run (initial_state True None)
      [TriggerClick, CloseClick, TriggerClick, MediaFulfilled 0, VideoCanPlay,
       CaptureClick sample_snapshot, MediaFulfilled 0]) = Some 1 \<and>
   readyCalledRef (run (initial_state True None)
      [TriggerClick, CloseClick, TriggerClick, MediaFulfilled 0, VideoCanPlay,
       CaptureClick sample_snapshot, MediaFulfilled 0]) \<and>
   isCameraReady (run (initial_state True None)
      [TriggerClick, CloseClick, TriggerClick, MediaFulfilled 0, VideoCanPlay,
       CaptureClick sample_snapshot, MediaFulfilled 0]) \<and>
   videoRef (run (initial_state True None)
      [TriggerClick, CloseClick, TriggerClick, MediaFulfilled 0, VideoCanPlay,
       CaptureClick sample_snapshot, MediaFulfilled 0]) = None"
  by (simp add: initial_state_def step_def handle_def commit_def renderCameraView_def
      rendered_def truthy_def handleOpen_def handleClose_def requestCameraAccess_def
      startCamera_def stopCamera_def stopExistingCameraStreams_def getUserMedia_fulfilled_def
      take_task_def startCamera_resume_def startCamera_returned_def fresh_video_def
      fresh_canvas_def informCameraReady_def capturePhoto_def sample_snapshot_def Let_def
      set_canvas_dimension_def)

text \<open>
  C2, amended. For every stream shown by the video element the readiness flag goes
  from false to true at most once along any sequence of events, and only by one of the
  two readiness signals: the first signal, whichever of the two it is, closes the
  latch, raises the flag and clears the loading flag, and a signal that finds the latch
  closed changes nothing. An acquisition that finds the video element mounted reopens
  the latch, lowers the flag and arms both listeners on the new stream, so a stream
  never becomes the one shown with the latch closed; an acquisition that finds no video
  element leaves latch and flag as they are.
\<close>

theorem readiness_latch:
  "(\<not> readyCalledRef s \<longrightarrow>
      informCameraReady s = s\<lparr>readyCalledRef := True, isCameraReady := True, isLoading := False\<rparr>) \<and>
   (readyCalledRef s \<longrightarrow> informCameraReady s = s) \<and>
   (videoRef s = Some v \<and> onplaying v \<longrightarrow> handle VideoPlaying s = informCameraReady s) \<and>
   (videoRef s = Some v \<and> oncanplay v \<longrightarrow> handle VideoCanPlay s = informCameraReady s) \<and>
   (videoRef s = Some v \<longrightarrow>
      \<not> readyCalledRef (startCamera_resume orig s) \<and>
      \<not> isCameraReady (startCamera_resume orig s) \<and>
      videoRef (startCamera_resume orig s)
        = Some (v\<lparr>onplaying := True, oncanplay := True, srcObject := Some (nextStream s)\<rparr>)) \<and>
   (videoRef s = None \<longrightarrow>
      readyCalledRef (startCamera_resume orig s) = readyCalledRef s \<and>
      isCameraReady (startCamera_resume orig s) = isCameraReady s) \<and>
   (bound_stream (step e s) = Some h \<and> bound_stream s \<noteq> Some h \<longrightarrow>
      \<not> readyCalledRef (step e s) \<and> \<not> isCameraReady (step e s)) \<and>
   latchings h (initial_state supported img) evs \<le> 1 \<and>
   (\<not> isCameraReady (run (initial_state supported img) evs) \<and>
    isCameraReady (step e (run (initial_state supported img) evs)) \<longrightarrow>
      (e = VideoPlaying \<or> e = VideoCanPlay) \<and>
      (\<exists>h'. bound_stream (run (initial_state supported img) evs) = Some h'))"
proof -
  have inform: "(\<not> readyCalledRef s \<longrightarrow>
      informCameraReady s = s\<lparr>readyCalledRef := True, isCameraReady := True, isLoading := False\<rparr>) \<and>
   (readyCalledRef s \<longrightarrow> informCameraReady s = s)"
    by (simp add: informCameraReady_def)
  have signals: "(videoRef s = Some v \<and> onplaying v \<longrightarrow> handle VideoPlaying s = informCameraReady s) \<and>
   (videoRef s = Some v \<and> oncanplay v \<longrightarrow> handle VideoCanPlay s = informCameraReady s)"
    by (simp add: handle_def)
  have bind: "videoRef s = Some v \<longrightarrow>
      \<not> readyCalledRef (startCamera_resume orig s) \<and>
      \<not> isCameraReady (startCamera_resume orig s) \<and>
      videoRef (startCamera_resume orig s)
        = Some (v\<lparr>onplaying := True, oncanplay := True, srcObject := Some (nextStream s)\<rparr>)"
    using startCamera_resume_bound [of s v orig] by simp
  have skip: "videoRef s = None \<longrightarrow>
      readyCalledRef (startCamera_resume orig s) = readyCalledRef s \<and>
      isCameraReady (startCamera_resume orig s) = isCameraReady s"
    using startCamera_resume_unbound [of s orig] by simp
  have fresh: "bound_stream (step e s) = Some h \<and> bound_stream s \<noteq> Some h \<longrightarrow>
      \<not> readyCalledRef (step e s) \<and> \<not> isCameraReady (step e s)"
    using newly_bound_latch_open [of e s h] by blast
  have once: "latchings h (initial_state supported img) evs \<le> 1"
    using latchings_bounded [OF video_inv_initial, of h supported img evs]
    by (simp split: if_splits)
  have only: "\<not> isCameraReady (run (initial_state supported img) evs) \<and>
    isCameraReady (step e (run (initial_state supported img) evs)) \<longrightarrow>
      (e = VideoPlaying \<or> e = VideoCanPlay) \<and>
      (\<exists>h'. bound_stream (run (initial_state supported img) evs) = Some h')"
    using flag_rises_only_by_signal [OF video_inv_run [OF video_inv_initial], of supported img evs e]
    by blast
  from inform signals bind skip fresh once only show ?thesis
    by (intro conjI) (erule conjunct1 conjunct2 | assumption)+
qed

theorem readiness_latch_witness:
  "\<not> readyCalledRef (run (initial_state True None) [TriggerClick, MediaFulfilled 0]) \<and>
   bound_stream (run (initial_state True None) [TriggerClick, MediaFulfilled 0]) = Some 0 \<and>
   bound_stream (run (initial_state True None) [TriggerClick]) = None \<and>
   isLoading (run (initial_state True None) [TriggerClick, MediaFulfilled 0]) \<and>
   \<not> isCameraReady (run (initial_state True None) [TriggerClick, MediaFulfilled 0]) \<and>
   isCameraReady (run (initial_state True None) [TriggerClick, MediaFulfilled 0, VideoCanPlay]) \<and>
   \<not> isLoading (run (initial_state True None) [TriggerClick, MediaFulfilled 0, VideoCanPlay]) \<and>
   run (initial_state True None) [TriggerClick, MediaFulfilled 0, VideoCanPlay, VideoPlaying]
     = run (initial_state True None) [TriggerClick, MediaFulfilled 0, VideoCanPlay] \<and>
   latchings 0 (initial_state True None)
     [TriggerClick, MediaFulfilled 0, VideoCanPlay, VideoPlaying, VideoCanPlay] = 1"
  using
    readiness_latch
      [where s = "run (initial_state True None) [TriggerClick, MediaFulfilled 0]"
         and v = "\<lparr>onplaying = True, oncanplay = True, srcObject = Some 0\<rparr>"
         and e = VideoCanPlay and h = 0 and supported = True and img = None
         and evs = "[TriggerClick, MediaFulfilled 0]"]
    readiness_latch
      [where s = "run (initial_state True None) [TriggerClick, MediaFulfilled 0, VideoCanPlay]"
         and v = "\<lparr>onplaying = True, oncanplay = True, srcObject = Some 0\<rparr>"
         and e = VideoPlaying and h = 0 and supported = True and img = None
         and evs = "[TriggerClick, MediaFulfilled 0, VideoCanPlay, VideoPlaying, VideoCanPlay]"]
    readiness_latch
      [where s = "run (initial_state True None) [TriggerClick]"
         and e = "MediaFulfilled 0" and h = 0 and supported = True and img = None
         and evs = "[]"]
  by (simp add: initial_state_def step_def handle_def commit_def renderCameraView_def
      rendered_def truthy_def handleOpen_def requestCameraAccess_def
      startCamera_def stopExistingCameraStreams_def getUserMedia_fulfilled_def
      take_task_def startCamera_resume_def startCamera_returned_def fresh_video_def
      fresh_canvas_def informCameraReady_def bound_stream_def Let_def)

section \<open>The single-stream invariant without overlap\<close>

lemma in_flight_take_task:
  assumes "take_task k ts = Some (t, rest)"
  shows "length (filter is_media ts) = (if is_media t then 1 else 0) + length (filter is_media rest)"
proof -
  from assms have k: "k < length ts" and t: "t = ts ! k" and r: "rest = take k ts @ drop (Suc k) ts"
    by (auto simp: take_task_def split: if_splits)
  have "ts = take k ts @ ts ! k # drop (Suc k) ts"
    using k by (rule id_take_nth_drop)
  then have "filter is_media ts = filter is_media (take k ts @ ts ! k # drop (Suc k) ts)"
    by simp
  then show ?thesis
    unfolding t r by simp
qed

lemma slot_quiet_refl: "slot_quiet s s"
  by (simp add: slot_quiet_def)

lemma stopExisting_slot:
  "alive (stopExistingCameraStreams s) = alive s - set_option (globalStream s) \<and>
   globalStream (stopExistingCameraStreams s) = None \<and>
   pending (stopExistingCameraStreams s) = pending s"
  by (cases "globalStream s") (simp_all add: stopExistingCameraStreams_def)

lemma slot_requestCameraAccess_catch: "slot_quiet s (requestCameraAccess_catch name s)"
  by (simp add: slot_quiet_def in_flight_def requestCameraAccess_catch_def Let_def)

lemma slot_requestCameraAccess:
  "slot_quiet s (requestCameraAccess fm s) \<or> slot_started s (requestCameraAccess fm s)"
proof (cases "mediaSupported s")
  case True
  then show ?thesis
    using stopExisting_slot [of "s\<lparr>isLoading := True, error := [], isCameraReady := False\<rparr>"]
    by (simp add: requestCameraAccess_supported slot_started_def in_flight_def)
next
  case False
  then have "requestCameraAccess fm s =
      requestCameraAccess_catch ''Error'' (s\<lparr>isLoading := True, error := [], isCameraReady := False\<rparr>)"
    by (simp add: requestCameraAccess_def startCamera_def)
  then show ?thesis
    using slot_requestCameraAccess_catch
      [of "s\<lparr>isLoading := True, error := [], isCameraReady := False\<rparr>" "''Error''"]
    by (simp add: slot_quiet_def in_flight_def)
qed

lemma slot_switchCamera_catch:
  "slot_quiet s (switchCamera_catch prior s) \<or> slot_started s (switchCamera_catch prior s)"
  using slot_requestCameraAccess [of "switchCamera_revert prior s" prior]
  by (simp add: switchCamera_catch_def switchCamera_revert_def slot_quiet_def slot_started_def
      in_flight_def)

lemma slot_switchCamera:
  "slot_quiet s (switchCamera s) \<or> slot_started s (switchCamera s)"
proof (cases "globalStream s")
  case None
  then show ?thesis by (simp add: switchCamera_def slot_quiet_def in_flight_def Let_def)
next
  case (Some h)
  show ?thesis
  proof (cases "mediaSupported s")
    case True
    then show ?thesis
      using Some stopExisting_slot
        [of "s\<lparr>facingMode := toggle (facingMode s), isLoading := True, isCameraReady := False\<rparr>"]
      by (simp add: switchCamera_supported slot_started_def in_flight_def)
  next
    case False
    then have "switchCamera s = switchCamera_catch (facingMode s)
        (s\<lparr>facingMode := toggle (facingMode s), isLoading := True, isCameraReady := False\<rparr>)"
      using Some by (simp add: switchCamera_def startCamera_def Let_def)
    then show ?thesis
      using slot_switchCamera_catch
        [of "s\<lparr>facingMode := toggle (facingMode s), isLoading := True, isCameraReady := False\<rparr>"
            "facingMode s"]
      by (simp add: slot_quiet_def slot_started_def in_flight_def)
  qed
qed

lemma slot_handleOpen:
  "slot_quiet s (handleOpen s) \<or> slot_started s (handleOpen s)"
  using slot_requestCameraAccess
    [of "s\<lparr>isOpen := True, capturedImage := None, error := []\<rparr>" "facingMode s"]
  by (simp add: handleOpen_def slot_quiet_def slot_started_def in_flight_def Let_def)

lemma slot_handleClose: "slot_released s (handleClose s)"
  using handleClose_fields [of s] by (simp add: slot_released_def in_flight_def)

lemma slot_unmount: "slot_released s (unmount s)"
  using stopExisting_slot [of s] by (simp add: slot_released_def in_flight_def unmount_def)

lemma slot_capturePhoto: "slot_quiet s (capturePhoto p s)"
  using capturePhoto_cases [of p s] by (auto simp: slot_quiet_def in_flight_def)

lemma slot_confirmPhoto: "slot_quiet s (confirmPhoto s) \<or> slot_released s (confirmPhoto s)"
proof -
  from confirmPhoto_cases [of s] show ?thesis
  proof
    assume "confirmPhoto s = s"
    then show ?thesis by (simp add: slot_quiet_def)
  next
    assume "\<exists>i. confirmPhoto s = handleClose (s\<lparr>imageRef := i\<rparr>)"
    then obtain i where "confirmPhoto s = handleClose (s\<lparr>imageRef := i\<rparr>)" ..
    then show ?thesis
      using slot_handleClose [of "s\<lparr>imageRef := i\<rparr>"]
      by (simp add: slot_released_def in_flight_def)
  qed
qed

lemma slot_informCameraReady: "slot_quiet s (informCameraReady s)"
  by (simp add: slot_quiet_def in_flight_def informCameraReady_def)

lemma slot_play_settled: "slot_quiet s (play_settled k s)"
proof (cases "take_task k (pending s)")
  case None
  then show ?thesis by (simp add: play_settled_def slot_quiet_def)
next
  case (Some a)
  obtain t rest where a: "a = (t, rest)" by (cases a)
  note len = in_flight_take_task [OF Some [unfolded a]]
  show ?thesis
  proof (cases t)
    case (GetUserMedia orig fm)
    then show ?thesis using Some a by (simp add: play_settled_def slot_quiet_def)
  next
    case (Play orig)
    then show ?thesis
      using Some a len
      by (cases orig) (simp_all add: play_settled_def startCamera_returned_def slot_quiet_def in_flight_def)
  qed
qed

lemma slot_getUserMedia_rejected:
  "slot_quiet s (getUserMedia_rejected k name s) \<or> slot_released s (getUserMedia_rejected k name s)"
proof (cases "take_task k (pending s)")
  case None
  then show ?thesis by (simp add: getUserMedia_rejected_def slot_quiet_def)
next
  case (Some a)
  obtain t rest where a: "a = (t, rest)" by (cases a)
  note len = in_flight_take_task [OF Some [unfolded a]]
  show ?thesis
  proof (cases t)
    case (Play orig)
    then show ?thesis using Some a by (simp add: getUserMedia_rejected_def slot_quiet_def)
  next
    case (GetUserMedia orig fm)
    then have m: "in_flight s = Suc (in_flight (s\<lparr>pending := rest\<rparr>))"
      using len by (simp add: in_flight_def)
    show ?thesis
    proof (cases orig)
      case RequestAccess
      then have "getUserMedia_rejected k name s = requestCameraAccess_catch name (s\<lparr>pending := rest\<rparr>)"
        using Some a GetUserMedia by (simp add: getUserMedia_rejected_def)
      then show ?thesis
        using slot_requestCameraAccess_catch [of "s\<lparr>pending := rest\<rparr>" name] m
        by (simp add: slot_quiet_def)
    next
      case (SwitchTry prior)
      then have "getUserMedia_rejected k name s = switchCamera_catch prior (s\<lparr>pending := rest\<rparr>)"
        using Some a GetUserMedia by (simp add: getUserMedia_rejected_def)
      then show ?thesis
        using slot_switchCamera_catch [of "s\<lparr>pending := rest\<rparr>" prior] m
        by (auto simp: slot_quiet_def slot_started_def slot_released_def)
    qed
  qed
qed

lemma slot_getUserMedia_fulfilled:
  "slot_quiet s (getUserMedia_fulfilled k s) \<or> slot_filled s (getUserMedia_fulfilled k s)"
proof (cases "take_task k (pending s)")
  case None
  then show ?thesis by (simp add: getUserMedia_fulfilled_def slot_quiet_def)
next
  case (Some a)
  obtain t rest where a: "a = (t, rest)" by (cases a)
  note len = in_flight_take_task [OF Some [unfolded a]]
  show ?thesis
  proof (cases t)
    case (Play orig)
    then show ?thesis using Some a by (simp add: getUserMedia_fulfilled_def slot_quiet_def)
  next
    case (GetUserMedia orig fm)
    then have m: "in_flight s = Suc (length (filter is_media rest))"
      using len by (simp add: in_flight_def)
    have eq: "getUserMedia_fulfilled k s = startCamera_resume orig (s\<lparr>pending := rest\<rparr>)"
      using Some a GetUserMedia by (simp add: getUserMedia_fulfilled_def)
    have "slot_filled s (startCamera_resume orig (s\<lparr>pending := rest\<rparr>))"
      using m
      by (cases "videoRef s"; cases orig)
        (simp_all add: startCamera_resume_def startCamera_returned_def slot_filled_def
          in_flight_def Let_def)
    then show ?thesis by (simp add: eq)
  qed
qed

lemma slot_handle_cases:
  "slot_quiet s (handle e s) \<or> slot_released s (handle e s) \<or>
   slot_started s (handle e s) \<or> slot_filled s (handle e s)"
proof (cases e)
  case TriggerClick
  then show ?thesis using slot_handleOpen [of s] slot_quiet_refl [of s] by (auto simp: handle_def)
next
  case CloseClick
  then show ?thesis using slot_handleClose [of s] slot_quiet_refl [of s] by (auto simp: handle_def)
next
  case RetryClick
  then show ?thesis
    using slot_requestCameraAccess [of s "facingMode s"] slot_quiet_refl [of s]
    by (auto simp: handle_def)
next
  case SwitchCameraClick
  then show ?thesis using slot_switchCamera [of s] slot_quiet_refl [of s] by (auto simp: handle_def)
next
  case (CaptureClick p)
  then show ?thesis using slot_capturePhoto [of s p] slot_quiet_refl [of s] by (auto simp: handle_def)
next
  case RetakeClick
  then show ?thesis by (simp add: handle_def slot_quiet_def in_flight_def retakePhoto_def)
next
  case ConfirmClick
  then show ?thesis using slot_confirmPhoto [of s] slot_quiet_refl [of s] by (auto simp: handle_def)
next
  case Unmount
  then show ?thesis using slot_unmount [of s] slot_quiet_refl [of s] by (auto simp: handle_def)
next
  case (PermissionChange p)
  then show ?thesis by (simp add: handle_def slot_quiet_def in_flight_def)
next
  case (MediaFulfilled k)
  then show ?thesis using slot_getUserMedia_fulfilled [of s k] by (auto simp: handle_def)
next
  case (MediaRejected k name)
  then show ?thesis using slot_getUserMedia_rejected [of s k name] by (auto simp: handle_def)
next
  case (PlaySettled k ok)
  then show ?thesis using slot_play_settled [of s k] by (auto simp: handle_def)
next
  case VideoPlaying
  then show ?thesis
    using slot_informCameraReady [of s] slot_quiet_refl [of s]
    by (cases "videoRef s") (auto simp: handle_def)
next
  case VideoCanPlay
  then show ?thesis
    using slot_informCameraReady [of s] slot_quiet_refl [of s]
    by (cases "videoRef s") (auto simp: handle_def)
qed

lemma commit_slot:
  "alive (commit s) = alive s \<and> globalStream (commit s) = globalStream s \<and>
   in_flight (commit s) = in_flight s"
  by (simp add: commit_def in_flight_def)

lemma slot_inv_step:
  assumes "slot_inv s" and "in_flight (step e s) \<le> 1"
  shows "slot_inv (step e s)"
proof -
  have c: "alive (step e s) = alive (handle e s)" "globalStream (step e s) = globalStream (handle e s)"
    "in_flight (step e s) = in_flight (handle e s)"
    using commit_slot [of "handle e s"] by (simp_all add: step_def)
  from slot_handle_cases [of s e] show ?thesis
  proof (elim disjE)
    assume "slot_quiet s (handle e s)"
    then show ?thesis using assms c by (auto simp: slot_inv_def slot_quiet_def)
  next
    assume "slot_released s (handle e s)"
    then show ?thesis using assms c by (auto simp: slot_inv_def slot_released_def)
  next
    assume "slot_started s (handle e s)"
    then show ?thesis using assms c by (auto simp: slot_inv_def slot_started_def)
  next
    assume "slot_filled s (handle e s)"
    then show ?thesis using assms c by (auto simp: slot_inv_def slot_filled_def)
  qed
qed

lemma slot_inv_run: "slot_inv s \<Longrightarrow> serial s evs \<Longrightarrow> slot_inv (run s evs)"
  by (induction evs arbitrary: s) (simp_all add: slot_inv_step)

lemma slot_inv_initial: "slot_inv (initial_state supported img)"
  by (simp add: slot_inv_def initial_state_def in_flight_def)

text \<open>
  As long as no second \<^verbatim>\<open>getUserMedia\<close> call is started while one is in flight, at most
  one stream is alive after every event, and right after a close or an unmount none is.
\<close>

lemma serial_single_stream:
  assumes "serial (initial_state supported img) evs"
  shows "card (alive (run (initial_state supported img) evs)) \<le> 1"
proof -
  have "slot_inv (run (initial_state supported img) evs)"
    using slot_inv_initial assms by (rule slot_inv_run)
  then show ?thesis
    by (cases "globalStream (run (initial_state supported img) evs)") (simp_all add: slot_inv_def)
qed

lemma serial_release:
  assumes "serial (initial_state supported img) evs"
    and "mounted (run (initial_state supported img) evs)"
  shows "alive (step Unmount (run (initial_state supported img) evs)) = {}"
    and "isOpen (run (initial_state supported img) evs) \<Longrightarrow>
         alive (step CloseClick (run (initial_state supported img) evs)) = {}"
proof -
  have inv: "slot_inv (run (initial_state supported img) evs)"
    using slot_inv_initial assms(1) by (rule slot_inv_run)
  show "alive (step Unmount (run (initial_state supported img) evs)) = {}"
    using inv assms(2) slot_unmount [of "run (initial_state supported img) evs"]
      commit_slot [of "unmount (run (initial_state supported img) evs)"]
    by (simp add: step_def handle_def slot_inv_def slot_released_def)
  show "alive (step CloseClick (run (initial_state supported img) evs)) = {}"
    if "isOpen (run (initial_state supported img) evs)"
    using inv assms(2) that slot_handleClose [of "run (initial_state supported img) evs"]
      commit_slot [of "handleClose (run (initial_state supported img) evs)"]
    by (simp add: step_def handle_def slot_inv_def slot_released_def)
qed

end
